theory Spec2Isabelle
  imports Complex_Main
begin

section \<open>The solver (sgl/solver.py)\<close>

text \<open>
  Python floats are modelled as exact reals. A matrix is the list of its rows; a row holds
  the coefficients followed by the right-hand side, as the rows of the numpy array
  \<open>s\<close> do. A numpy array is rectangular, which \<open>rect\<close> states.
\<close>

type_synonym row = "real list"
type_synonym matrix = "row list"

definition ncols :: "matrix \<Rightarrow> nat" where
  "ncols s = (case s of [] \<Rightarrow> 0 | r # _ \<Rightarrow> length r)"

definition rect :: "matrix \<Rightarrow> bool" where
  "rect s = (s \<noteq> [] \<and> 0 < ncols s \<and> list_all (\<lambda>r. length r = ncols s) s)"

text \<open>\<open>null(f)\<close>: \<open>abs(f) < 1e-10\<close>.\<close>

definition null :: "real \<Rightarrow> bool" where
  "null f = (\<bar>f\<bar> < 1 / 10 ^ 10)"

text \<open>\<open>nullrow(r)\<close>: \<open>all(map(null, r))\<close>.\<close>

definition nullrow :: "row \<Rightarrow> bool" where
  "nullrow r = list_all null r"

text \<open>\<open>count(f, l)\<close>: the loop that adds one for every item satisfying \<open>f\<close>.\<close>

fun count_from :: "nat \<Rightarrow> ('a \<Rightarrow> bool) \<Rightarrow> 'a list \<Rightarrow> nat" where
  "count_from c f [] = c"
| "count_from c f (i # l) = count_from (if f i then c + 1 else c) f l"

definition count :: "('a \<Rightarrow> bool) \<Rightarrow> 'a list \<Rightarrow> nat" where
  "count f l = count_from 0 f l"

datatype error =
    NoSolution         \<comment> \<open>\<open>ValueError("Has no solution")\<close>\<close>
  | CountMismatch int nat  \<comment> \<open>\<open>ValueError("Expected {} values, got {}")\<close>\<close>
  | NoItem             \<comment> \<open>\<open>ValueError("No item satisfies {}")\<close> of \<open>index\<close>\<close>
  | TypeError          \<comment> \<open>arithmetic on \<open>None\<close>\<close>
  | IndexError         \<comment> \<open>a list index out of range\<close>
  | UnpackError        \<comment> \<open>\<open>ValueError\<close> of unpacking a tuple of the wrong length\<close>
  | ZeroDivisionError

text \<open>\<open>index(f, l)\<close>: the position of the first item satisfying \<open>f\<close>, or ValueError.\<close>

fun index_from :: "nat \<Rightarrow> ('a \<Rightarrow> bool) \<Rightarrow> 'a list \<Rightarrow> error + nat" where
  "index_from i f [] = Inl NoItem"
| "index_from i f (v # l) = (if f v then Inr i else index_from (i + 1) f l)"

definition index :: "('a \<Rightarrow> bool) \<Rightarrow> 'a list \<Rightarrow> error + nat" where
  "index f l = index_from 0 f l"

text \<open>\<open>first_nonzero(r)\<close>: the position of the first non-null entry, \<open>len(r)\<close> if none.\<close>

fun first_nonzero_from :: "nat \<Rightarrow> row \<Rightarrow> nat" where
  "first_nonzero_from i [] = i"
| "first_nonzero_from i (v # r) = (if \<not> null v then i else first_nonzero_from (i + 1) r)"

definition first_nonzero :: "row \<Rightarrow> nat" where
  "first_nonzero r = first_nonzero_from 0 r"

text \<open>
  The class \<open>Solution\<close>. \<open>Solution_init\<close> is \<open>__init__\<close>: \<open>row[:-1]\<close> is
  \<open>butlast row\<close> and \<open>row[-1]\<close> is \<open>last row\<close> (rows are not empty in a rectangular
  matrix). \<open>varargs\<close> is an integer: it is negative when there are more non-null rows
  than variables.
\<close>

record Solution =
  s_of :: matrix
  varcount :: nat
  solvable :: bool
  varargs :: int
  exact :: bool

definition contradiction :: "row \<Rightarrow> bool" where
  "contradiction row = (list_all null (butlast row) \<and> \<not> null (last row))"

definition unique_equations :: "matrix \<Rightarrow> nat" where
  "unique_equations s = length (filter (\<lambda>row. \<not> nullrow row) s)"

definition Solution_init :: "matrix \<Rightarrow> Solution" where
  "Solution_init s =
     (let vc = ncols s - 1;
          va = int vc - int (unique_equations s)
      in \<lparr> s_of = s, varcount = vc,
           solvable = (\<not> list_ex contradiction s),
           varargs = va, exact = (va = 0) \<rparr>)"

text \<open>
  \<open>__call__\<close>, loop by loop. The values are \<open>None\<close> until resolved, so the list
  \<open>vals\<close> holds options. First loop: every row with exactly one non-null coefficient
  sets its variable.
\<close>

fun scan_rows :: "matrix \<Rightarrow> real option list \<Rightarrow> error + real option list" where
  "scan_rows [] vals = Inr vals"
| "scan_rows (row # rows) vals =
     (if count (\<lambda>i. \<not> null i) (butlast row) = 1
      then (case index (\<lambda>i. \<not> null i) (butlast row) of
              Inl e \<Rightarrow> Inl e
            | Inr var \<Rightarrow>
                if var < length vals
                then scan_rows rows (vals[var := Some (last row / row ! var)])
                else Inl IndexError)
      else scan_rows rows vals)"

text \<open>
  Second loop: \<open>for i in reversed(range(len(vals)))\<close>, stopping when \<open>v\<close> is empty;
  \<open>v.pop()\<close> takes the last value of \<open>v\<close>. \<open>fill_values k vals v\<close> is the loop with
  the indices \<open>k - 1, ..., 0\<close> still to visit.
\<close>

fun fill_values :: "nat \<Rightarrow> real option list \<Rightarrow> real list \<Rightarrow> real option list" where
  "fill_values 0 vals v = vals"
| "fill_values (Suc i) vals v =
     (if v = [] then vals
      else if vals ! i = None then fill_values i (vals[i := Some (last v)]) (butlast v)
      else fill_values i vals v)"

text \<open>
  The sum \<open>sum(-1 * row[j] * vals[j] for j in range(tbd + 1, len(row) - 1))\<close>: it starts
  from 0 and adds term by term; a value that is still \<open>None\<close> raises TypeError.
\<close>

fun sum_terms :: "row \<Rightarrow> real option list \<Rightarrow> nat list \<Rightarrow> real \<Rightarrow> error + real" where
  "sum_terms row vals [] acc = Inr acc"
| "sum_terms row vals (j # js) acc =
     (if j < length vals
      then (case vals ! j of
              None \<Rightarrow> Inl TypeError
            | Some x \<Rightarrow> sum_terms row vals js (acc + (- 1) * row ! j * x))
      else Inl IndexError)"

text \<open>
  Third loop: \<open>for i in reversed(range(len(self._s)))\<close>. \<open>back_substitute k s vals\<close> is
  the loop with the rows \<open>k - 1, ..., 0\<close> still to visit.
\<close>

fun back_substitute :: "nat \<Rightarrow> matrix \<Rightarrow> real option list \<Rightarrow> error + real option list" where
  "back_substitute 0 s vals = Inr vals"
| "back_substitute (Suc i) s vals =
     (let row = s ! i in
      if nullrow row then back_substitute i s vals
      else
        (let tbd = first_nonzero row in
         case sum_terms row vals [tbd + 1 ..< length row - 1] 0 of
           Inl e \<Rightarrow> Inl e
         | Inr sm \<Rightarrow>
             if tbd < length row \<and> tbd < length vals
             then back_substitute i s (vals[tbd := Some ((sm + last row) / row ! tbd)])
             else Inl IndexError))"

definition call :: "Solution \<Rightarrow> real list \<Rightarrow> error + real option list" where
  "call sol v =
     (if \<not> solvable sol then Inl NoSolution
      else if int (length v) \<noteq> varargs sol then Inl (CountMismatch (varargs sol) (length v))
      else
        (case scan_rows (s_of sol) (replicate (varcount sol) None) of
           Inl e \<Rightarrow> Inl e
         | Inr vals \<Rightarrow>
             (let vals' = fill_values (length vals) vals v
              in back_substitute (length (s_of sol)) (s_of sol) vals')))"

text \<open>\<open>__bool__\<close>: a Solution is truthy exactly when it is solvable.\<close>

definition Solution_bool :: "Solution \<Rightarrow> bool" where
  "Solution_bool sol = solvable sol"

subsection \<open>The reduction \<open>scipy.linalg.lu(matrix, True)\<close>\<close>

text \<open>
  Modelled from the spec: the reduction \<open>scipy.linalg.lu(matrix, True)\<close>, of which
  \<open>solve\<close> keeps the second result, the upper factor \<open>U\<close> of the LU decomposition.
  SciPy is an external library and not among the source files; the spec describes the
  step as Gaussian elimination with pivoting. It is modelled in exact real arithmetic
  with partial pivoting, as LAPACK's \<open>getrf\<close> performs it: for the columns
  \<open>k = 0, 1, ...\<close> the first row (among the rows not yet used) with the largest
  absolute entry in column \<open>k\<close> is swapped to the top; when that entry is not zero its
  multiples are subtracted from the rows below; the top row is row \<open>k\<close> of \<open>U\<close>.
  \<open>U\<close> has \<open>min(M, N)\<close> rows. Rounding is not modelled.
\<close>

fun pivot_from :: "nat \<Rightarrow> nat \<Rightarrow> real \<Rightarrow> nat \<Rightarrow> matrix \<Rightarrow> nat" where
  "pivot_from k best bv i [] = best"
| "pivot_from k best bv i (r # rs) =
     (if bv < \<bar>r ! k\<bar> then pivot_from k i \<bar>r ! k\<bar> (i + 1) rs
      else pivot_from k best bv (i + 1) rs)"

definition pivot_index :: "nat \<Rightarrow> matrix \<Rightarrow> nat" where
  "pivot_index k rows = (case rows of [] \<Rightarrow> 0 | r # rs \<Rightarrow> pivot_from k 0 \<bar>r ! k\<bar> 1 rs)"

definition row_sub :: "row \<Rightarrow> real \<Rightarrow> row \<Rightarrow> row" where
  "row_sub r m p = map (\<lambda>(x, y). x - m * y) (zip r p)"

function lu_upper :: "nat \<Rightarrow> matrix \<Rightarrow> matrix" where
  "lu_upper k [] = []"
| "lu_upper k (r # rs) =
     (if length r \<le> k then []
      else
        (let p = pivot_index k (r # rs);
             top = (r # rs) ! p;
             rest = (if p = 0 then rs else rs[p - 1 := r])
         in if top ! k = 0 then top # lu_upper (k + 1) rest
            else top # lu_upper (k + 1) (map (\<lambda>x. row_sub x (x ! k / top ! k) top) rest)))"
  by pat_completeness auto
termination
  by (relation "measure (\<lambda>(k, rows). length rows)") auto

text \<open>\<open>solve(matrix)\<close>.\<close>

definition solve :: "matrix \<Rightarrow> Solution" where
  "solve m = Solution_init (lu_upper 0 m)"

section \<open>Vectors, points, lines and planes\<close>

text \<open>
  The field names carry a prefix, because \<open>x\<close>, \<open>p\<close> and \<open>n\<close> are needed as
  variables: \<open>point_x\<close> is \<open>Point.x\<close>, \<open>plane_p\<close> is \<open>Plane.p\<close>, \<open>plane_n\<close> is
  \<open>Plane.n\<close>; \<open>sv\<close> and \<open>dv\<close> are the fields of \<open>Line\<close>.
\<close>

record vector =
  vec_x :: real
  vec_y :: real
  vec_z :: real

record point =
  point_x :: real
  point_y :: real
  point_z :: real

record line =
  sv :: vector
  dv :: vector

record plane =
  plane_p :: point
  plane_n :: vector

subsection \<open>Vector (sgl/vector.py)\<close>

text \<open>
  Modelled from the spec: the class \<open>Vector\<close> (sgl/vector.py is not among the source
  files). The spec lists its operations: add, scale, dot, cross, length, normalize,
  angle-between, parallel-test and orthogonal-test, the tests with the tolerance.
  \<open>Vector(a, b)\<close> of two points is the vector from \<open>a\<close> to \<open>b\<close>; \<open>v * w\<close> is the dot
  product; \<open>list(v)\<close> is the list of the three components.
\<close>

definition Vector :: "real \<Rightarrow> real \<Rightarrow> real \<Rightarrow> vector" where
  "Vector a b c = \<lparr> vec_x = a, vec_y = b, vec_z = c \<rparr>"

definition Vector_between :: "point \<Rightarrow> point \<Rightarrow> vector" where
  "Vector_between a b = Vector (point_x b - point_x a) (point_y b - point_y a) (point_z b - point_z a)"

definition Vector_list :: "vector \<Rightarrow> real list" where
  "Vector_list v = [vec_x v, vec_y v, vec_z v]"

definition Vector_add :: "vector \<Rightarrow> vector \<Rightarrow> vector" where
  "Vector_add v w = Vector (vec_x v + vec_x w) (vec_y v + vec_y w) (vec_z v + vec_z w)"

definition Vector_sub :: "vector \<Rightarrow> vector \<Rightarrow> vector" where
  "Vector_sub v w = Vector (vec_x v - vec_x w) (vec_y v - vec_y w) (vec_z v - vec_z w)"

definition Vector_scale :: "real \<Rightarrow> vector \<Rightarrow> vector" where
  "Vector_scale c v = Vector (c * vec_x v) (c * vec_y v) (c * vec_z v)"

definition Vector_dot :: "vector \<Rightarrow> vector \<Rightarrow> real" where
  "Vector_dot v w = vec_x v * vec_x w + vec_y v * vec_y w + vec_z v * vec_z w"

definition Vector_cross :: "vector \<Rightarrow> vector \<Rightarrow> vector" where
  "Vector_cross v w =
     Vector (vec_y v * vec_z w - vec_z v * vec_y w)
            (vec_z v * vec_x w - vec_x v * vec_z w)
            (vec_x v * vec_y w - vec_y v * vec_x w)"

definition Vector_length :: "vector \<Rightarrow> real" where
  "Vector_length v = sqrt (Vector_dot v v)"

text \<open>
  Modelled from the spec: normalising divides by the length, and the spec notes that
  the source does not guard the zero vector; the division by zero is the error
  \<open>ZeroDivisionError\<close> here. The same holds for the angle between two vectors, the
  arc cosine of the dot product over the product of the lengths.
\<close>

definition Vector_normalized :: "vector \<Rightarrow> error + vector" where
  "Vector_normalized v =
     (if Vector_length v = 0 then Inl ZeroDivisionError
      else Inr (Vector_scale (1 / Vector_length v) v))"

definition Vector_angle :: "vector \<Rightarrow> vector \<Rightarrow> error + real" where
  "Vector_angle v w =
     (if Vector_length v * Vector_length w = 0 then Inl ZeroDivisionError
      else Inr (arccos (Vector_dot v w / (Vector_length v * Vector_length w))))"

definition Vector_orthogonal :: "vector \<Rightarrow> vector \<Rightarrow> bool" where
  "Vector_orthogonal v w = null (Vector_dot v w)"

definition Vector_parallel :: "vector \<Rightarrow> vector \<Rightarrow> bool" where
  "Vector_parallel v w = nullrow (Vector_list (Vector_cross v w))"

subsection \<open>Point (sgl/point.py)\<close>

text \<open>
  \<open>Point(a, b, c)\<close> and \<open>Point(v)\<close> for a vector \<open>v\<close>; \<open>unify_types\<close> (sgl/util.py,
  not among the source files) is taken to leave real coordinates as they are.
\<close>

definition Point :: "real \<Rightarrow> real \<Rightarrow> real \<Rightarrow> point" where
  "Point a b c = \<lparr> point_x = a, point_y = b, point_z = c \<rparr>"

definition Point_of_vector :: "vector \<Rightarrow> point" where
  "Point_of_vector v = Point (vec_x v) (vec_y v) (vec_z v)"

text \<open>
  \<open>Point(t)\<close> for a tuple \<open>t\<close> returned by a Solution. An entry \<open>None\<close> is no
  coordinate: Modelled from the spec, whose points have real coordinates, it is the error
  \<open>TypeError\<close> (the arithmetic on the point meets it at the latest).
\<close>

fun Point_of_tuple :: "real option list \<Rightarrow> error + point" where
  "Point_of_tuple [Some a, Some b, Some c] = Inr (Point a b c)"
| "Point_of_tuple [_, _, _] = Inl TypeError"
| "Point_of_tuple _ = Inl UnpackError"

text \<open>\<open>__eq__\<close>, \<open>__getitem__\<close>, \<open>pv\<close> and \<open>moved\<close>.\<close>

definition Point_eq :: "point \<Rightarrow> point \<Rightarrow> bool" where
  "Point_eq self other =
     (point_x self = point_x other \<and> point_y self = point_y other \<and> point_z self = point_z other)"

text \<open>
  Indexing a sequence of three items: the indices \<open>-3, ..., 2\<close> are in range, a negative
  index counts from the end.
\<close>

definition index3 :: "int \<Rightarrow> error + nat" where
  "index3 item =
     (if 0 \<le> item \<and> item < 3 then Inr (nat item)
      else if - 3 \<le> item \<and> item < 0 then Inr (nat (item + 3))
      else Inl IndexError)"

definition Point_getitem :: "point \<Rightarrow> int \<Rightarrow> error + real" where
  "Point_getitem self item =
     (case index3 item of
        Inl e \<Rightarrow> Inl e
      | Inr i \<Rightarrow> Inr ([point_x self, point_y self, point_z self] ! i))"

text \<open>
  \<open>__setitem__\<close> is \<open>setattr(self, "xyz"[item], value)\<close>: it assigns the attribute
  named by the character at \<open>item\<close>. The object is modelled by its state, so the method
  returns the state of \<open>self\<close> after the call.
\<close>

definition setattr :: "point \<Rightarrow> char \<Rightarrow> real \<Rightarrow> point" where
  "setattr self name v =
     (if name = CHR ''x'' then self\<lparr>point_x := v\<rparr>
      else if name = CHR ''y'' then self\<lparr>point_y := v\<rparr>
      else if name = CHR ''z'' then self\<lparr>point_z := v\<rparr>
      else self)"

definition Point_setitem :: "point \<Rightarrow> int \<Rightarrow> real \<Rightarrow> error + point" where
  "Point_setitem self item v =
     (case index3 item of
        Inl e \<Rightarrow> Inl e
      | Inr i \<Rightarrow> Inr (setattr self (''xyz'' ! i) v))"

definition pv :: "point \<Rightarrow> vector" where
  "pv self = Vector (point_x self) (point_y self) (point_z self)"

definition moved :: "point \<Rightarrow> vector \<Rightarrow> point" where
  "moved self v = Point_of_vector (Vector_add (pv self) v)"

text \<open>
  The effect of a method call on the object itself: \<open>Point_after self m\<close> is the state
  of \<open>self\<close> after the call \<open>m\<close>. Only \<open>__setitem__\<close> assigns an attribute of
  \<open>self\<close>; \<open>__repr__\<close>, \<open>__hash__\<close>, \<open>__eq__\<close>, \<open>__getitem__\<close>, \<open>pv\<close>, \<open>moved\<close>
  and \<open>draw\<close> read the coordinates. A call that raises leaves the object as it was.
\<close>

datatype point_method =
    Repr
  | Hash
  | Eq point
  | Getitem int
  | Setitem int real
  | Pv
  | Moved vector
  | Draw

fun Point_after :: "point \<Rightarrow> point_method \<Rightarrow> point" where
  "Point_after self (Setitem item v) =
     (case Point_setitem self item v of Inl e \<Rightarrow> self | Inr self' \<Rightarrow> self')"
| "Point_after self _ = self"

subsection \<open>Line (sgl/line.py) and Plane (sgl/plane.py)\<close>

text \<open>
  Modelled from the spec: the class \<open>Line\<close> (sgl/line.py is not among the source
  files), a support vector \<open>sv\<close> and a direction vector \<open>dv\<close>. \<open>Line(s, d)\<close> stores
  them; a Point given as the support stands for its position vector.
\<close>

definition Line :: "vector \<Rightarrow> vector \<Rightarrow> line" where
  "Line s d = \<lparr> sv = s, dv = d \<rparr>"

definition Line_of_point :: "point \<Rightarrow> vector \<Rightarrow> line" where
  "Line_of_point a d = Line (pv a) d"

text \<open>\<open>Plane(Point, Vector)\<close>, the point normal form (\<open>_init_pn\<close>).\<close>

definition Plane :: "point \<Rightarrow> vector \<Rightarrow> plane" where
  "Plane a normale = \<lparr> plane_p = a, plane_n = normale \<rparr>"

section \<open>The relations (sgl/calc.py)\<close>

text \<open>
  The relations dispatch on the run-time types of their arguments and return values of
  several types, so arguments and results are values of one type: the three primitives,
  \<open>None\<close>, the marker \<open>NotImplemented\<close>, booleans and floats.
\<close>

datatype pyval =
    PointV point
  | LineV line
  | PlaneV plane
  | NoneV
  | NotImplementedV
  | BoolV bool
  | FloatV real

text \<open>The truth value of a value in a condition.\<close>

fun truthy :: "pyval \<Rightarrow> bool" where
  "truthy (BoolV b) = b"
| "truthy NoneV = False"
| "truthy (FloatV r) = (r \<noteq> 0)"
| "truthy _ = True"

text \<open>\<open>acute(rad)\<close>.\<close>

definition acute :: "real \<Rightarrow> real" where
  "acute rad = (if rad > 0.5 * pi then pi - rad else rad)"

text \<open>\<open>parallel(a, b)\<close>.\<close>

function parallel :: "pyval \<Rightarrow> pyval \<Rightarrow> pyval" where
  "parallel a b =
     (case (a, b) of
        (LineV l, LineV m) \<Rightarrow> BoolV (Vector_parallel (dv l) (dv m))
      | (LineV l, PlaneV e) \<Rightarrow> BoolV (Vector_orthogonal (dv l) (plane_n e))
      | (PlaneV e, LineV l) \<Rightarrow> parallel b a
      | (PlaneV e, PlaneV f) \<Rightarrow> BoolV (Vector_parallel (plane_n e) (plane_n f))
      | _ \<Rightarrow> NotImplementedV)"
  by pat_completeness auto
termination
  by (relation "measure (\<lambda>(a, b). case a of PlaneV _ \<Rightarrow> 1 | _ \<Rightarrow> 0)") auto

text \<open>
  \<open>Plane.__contains__\<close>. Modelled from the spec: \<open>self.parallel(other)\<close> is a method
  of the base class (sgl/body.py is not among the source files); it stands for
  \<open>parallel(self, other)\<close>.
\<close>

definition Plane_contains_point :: "plane \<Rightarrow> point \<Rightarrow> bool" where
  "Plane_contains_point self other =
     (Vector_dot (pv other) (plane_n self) = Vector_dot (pv (plane_p self)) (plane_n self))"

definition Plane_contains_line :: "plane \<Rightarrow> line \<Rightarrow> bool" where
  "Plane_contains_line self other =
     (Plane_contains_point self (Point_of_vector (sv other))
      \<and> truthy (parallel (PlaneV self) (LineV other)))"

text \<open>
  \<open>intersection(a, b)\<close>. In the Line/Line case \<open>lmb, mu = solution()\<close> unpacks a tuple
  of two values and \<open>float(lmb)\<close> fails on \<open>None\<close>.
\<close>

definition line_line_matrix :: "line \<Rightarrow> line \<Rightarrow> matrix" where
  "line_line_matrix a b =
     [[vec_x (dv a), - vec_x (dv b), vec_x (sv b) - vec_x (sv a)],
      [vec_y (dv a), - vec_y (dv b), vec_y (sv b) - vec_y (sv a)],
      [vec_z (dv a), - vec_z (dv b), vec_z (sv b) - vec_z (sv a)]]"

definition plane_plane_matrix :: "plane \<Rightarrow> plane \<Rightarrow> matrix" where
  "plane_plane_matrix a b =
     [Vector_list (plane_n a) @ [Vector_dot (plane_n a) (pv (plane_p a))],
      Vector_list (plane_n b) @ [Vector_dot (plane_n b) (pv (plane_p b))]]"

function intersection :: "pyval \<Rightarrow> pyval \<Rightarrow> error + pyval" where
  "intersection a b =
     (case (a, b) of
        (LineV l, LineV m) \<Rightarrow>
          (let solution = solve (line_line_matrix l m) in
           if \<not> Solution_bool solution then Inr NoneV
           else
             (case call solution [] of
                Inl e \<Rightarrow> Inl e
              | Inr [lmb, mu] \<Rightarrow>
                  (case lmb of
                     None \<Rightarrow> Inl TypeError
                   | Some lm \<Rightarrow> Inr (PointV (Point_of_vector (Vector_add (sv l) (Vector_scale lm (dv l))))))
              | Inr _ \<Rightarrow> Inl UnpackError))
      | (LineV l, PlaneV e) \<Rightarrow>
          (if Plane_contains_line e l then Inr a
           else if truthy (parallel a b) then Inr NoneV
           else
             (let mu = (Vector_dot (plane_n e) (pv (plane_p e)) - Vector_dot (plane_n e) (sv l))
                        / Vector_dot (plane_n e) (dv l)
              in Inr (PointV (Point_of_vector (Vector_add (sv l) (Vector_scale mu (dv l)))))))
      | (PlaneV e, LineV l) \<Rightarrow> intersection b a
      | (PlaneV e, PlaneV f) \<Rightarrow>
          (let solution = solve (plane_plane_matrix e f) in
           if \<not> Solution_bool solution then Inr NoneV
           else
             (case call solution [1] of
                Inl err \<Rightarrow> Inl err
              | Inr t1 \<Rightarrow>
                  (case Point_of_tuple t1 of
                     Inl err \<Rightarrow> Inl err
                   | Inr p1 \<Rightarrow>
                       (case call solution [2] of
                          Inl err \<Rightarrow> Inl err
                        | Inr t2 \<Rightarrow>
                            (case Point_of_tuple t2 of
                               Inl err \<Rightarrow> Inl err
                             | Inr p2 \<Rightarrow>
                                 Inr (LineV (Line (pv p1) (Vector_sub (pv p2) (pv p1)))))))))
      | _ \<Rightarrow> Inr NotImplementedV)"
  by pat_completeness auto
termination
  by (relation "measure (\<lambda>(a, b). case a of PlaneV _ \<Rightarrow> 1 | _ \<Rightarrow> 0)") auto

text \<open>\<open>angle(a, b)\<close>.\<close>

function angle :: "pyval \<Rightarrow> pyval \<Rightarrow> error + pyval" where
  "angle a b =
     (case (a, b) of
        (LineV l, LineV m) \<Rightarrow>
          (case Vector_angle (dv l) (dv m) of
             Inl e \<Rightarrow> Inl e
           | Inr raw \<Rightarrow> Inr (FloatV (acute raw)))
      | (LineV l, PlaneV e) \<Rightarrow>
          (case Vector_angle (dv l) (plane_n e) of
             Inl err \<Rightarrow> Inl err
           | Inr raw \<Rightarrow> (let rad = acute raw in Inr (FloatV (0.5 * pi - rad))))
      | (PlaneV e, LineV l) \<Rightarrow> angle b a
      | (PlaneV e, PlaneV f) \<Rightarrow>
          (case Vector_angle (plane_n e) (plane_n f) of
             Inl err \<Rightarrow> Inl err
           | Inr raw \<Rightarrow> Inr (FloatV (acute raw)))
      | _ \<Rightarrow> Inr NotImplementedV)"
  by pat_completeness auto
termination
  by (relation "measure (\<lambda>(a, b). case a of PlaneV _ \<Rightarrow> 1 | _ \<Rightarrow> 0)") auto

text \<open>\<open>orthogonal(a, b)\<close>.\<close>

function orthogonal :: "pyval \<Rightarrow> pyval \<Rightarrow> pyval" where
  "orthogonal a b =
     (case (a, b) of
        (LineV l, LineV m) \<Rightarrow> BoolV (null (Vector_dot (dv l) (dv m)))
      | (LineV l, PlaneV e) \<Rightarrow> BoolV (Vector_parallel (dv l) (plane_n e))
      | (PlaneV e, LineV l) \<Rightarrow> orthogonal b a
      | (PlaneV e, PlaneV f) \<Rightarrow> BoolV (Vector_orthogonal (plane_n e) (plane_n f))
      | _ \<Rightarrow> NotImplementedV)"
  by pat_completeness auto
termination
  by (relation "measure (\<lambda>(a, b). case a of PlaneV _ \<Rightarrow> 1 | _ \<Rightarrow> 0)") auto

text \<open>
  \<open>distance(a, b)\<close>. The function calls itself on the foot point that \<open>intersection\<close>
  returns, and \<open>intersection\<close> can return the line itself; then the call repeats
  without end. The result \<open>None\<close> of the model stands for a call that does not return.
\<close>

partial_function (option) distance :: "pyval \<Rightarrow> pyval \<Rightarrow> (error + pyval) option" where
  "distance a b =
     (case (a, b) of
        (PointV p, PointV q) \<Rightarrow> Some (Inr (FloatV (Vector_length (Vector_between p q))))
      | (PointV p, LineV l) \<Rightarrow>
          (let aux_plane = Plane p (dv l) in
           case intersection (PlaneV aux_plane) b of
             Inl e \<Rightarrow> Some (Inl e)
           | Inr foot \<Rightarrow> distance a foot)
      | (LineV l, PointV p) \<Rightarrow> distance b a
      | (LineV l, LineV m) \<Rightarrow>
          (case Vector_normalized (Vector_cross (dv l) (dv m)) of
             Inl e \<Rightarrow> Some (Inl e)
           | Inr normale \<Rightarrow> Some (Inr (FloatV \<bar>Vector_dot (Vector_sub (sv m) (sv l)) normale\<bar>)))
      | (PointV p, PlaneV e) \<Rightarrow>
          (let aux_line = Line_of_point p (plane_n e) in
           case intersection (LineV aux_line) b of
             Inl err \<Rightarrow> Some (Inl err)
           | Inr foot \<Rightarrow> distance a foot)
      | (PlaneV e, PointV p) \<Rightarrow> distance b a
      | (LineV l, PlaneV e) \<Rightarrow>
          (if truthy (parallel a b) then distance (PointV (Point_of_vector (sv l))) b
           else Some (Inr (FloatV 0.0)))
      | (PlaneV e, LineV l) \<Rightarrow> distance b a
      | _ \<Rightarrow> Some (Inr NotImplementedV))"

text \<open>
  The equations of the relations are unfolded on request only.
\<close>

declare parallel.simps [simp del] intersection.simps [simp del]
  angle.simps [simp del] orthogonal.simps [simp del]

text \<open>
  The supported combinations, as the spec lists them (section 4.2), by the kinds of the
  two arguments: intersection, parallel, angle and orthogonal take a line or a plane on
  each side; distance takes every pair of point, line and plane but plane and plane.
\<close>

datatype kind = KPoint | KLine | KPlane | KOther

fun kind_of :: "pyval \<Rightarrow> kind" where
  "kind_of (PointV _) = KPoint"
| "kind_of (LineV _) = KLine"
| "kind_of (PlaneV _) = KPlane"
| "kind_of _ = KOther"

definition spec_supported_relation :: "pyval \<Rightarrow> pyval \<Rightarrow> bool" where
  "spec_supported_relation a b =
     ((kind_of a, kind_of b) \<in> {(KLine, KLine), (KLine, KPlane), (KPlane, KLine), (KPlane, KPlane)})"

definition spec_supported_distance :: "pyval \<Rightarrow> pyval \<Rightarrow> bool" where
  "spec_supported_distance a b =
     ((kind_of a, kind_of b) \<in>
        {(KPoint, KPoint), (KPoint, KLine), (KLine, KPoint), (KLine, KLine),
         (KPoint, KPlane), (KPlane, KPoint), (KLine, KPlane), (KPlane, KLine)})"

text \<open>
  The acute representative of an angle in the words of the spec: if the raw angle exceeds
  \<open>pi / 2\<close>, report \<open>pi\<close> minus it.
\<close>

definition spec_acute :: "real \<Rightarrow> real" where
  "spec_acute raw = (if raw > pi / 2 then pi - raw else raw)"

text \<open>
  The resolution order of a query in the words of the spec (section 4.1), step by step.
  First step: a row with exactly one non-null coefficient fixes that variable to the
  right-hand side over the coefficient; of several such rows for one variable the last
  one counts.
\<close>

definition spec_nonnull_coeffs :: "row \<Rightarrow> nat list" where
  "spec_nonnull_coeffs row = filter (\<lambda>j. \<not> null (row ! j)) [0 ..< length row - 1]"

definition spec_direct :: "matrix \<Rightarrow> nat \<Rightarrow> real option" where
  "spec_direct s i =
     (let rs = filter (\<lambda>row. spec_nonnull_coeffs row = [i]) s
      in if rs = [] then None else Some (last (last rs) / last rs ! i))"

text \<open>
  Second step: the variables still undetermined take the caller's values, the rightmost
  one first: the undetermined variable with \<open>k\<close> undetermined variables to its right takes
  the value \<open>k\<close> places from the end, when there is one.
\<close>

definition spec_unresolved :: "real option list \<Rightarrow> nat" where
  "spec_unresolved xs = length (filter (\<lambda>y. y = None) xs)"

definition spec_fill :: "real option list \<Rightarrow> real list \<Rightarrow> real option list" where
  "spec_fill vals v =
     map (\<lambda>i. case vals ! i of
                 Some x \<Rightarrow> Some x
               | None \<Rightarrow>
                   (let k = spec_unresolved (drop (Suc i) vals)
                    in if k < length v then Some (rev v ! k) else None))
       [0 ..< length vals]"

text \<open>
  Third step: a row solves its leading (first non-null) variable from the resolved
  variables strictly to its right,
  \<open>leading_var = (RHS - sum of coeff_j * val_j for j > leading) / coeff_leading\<close>;
  the step is undefined (\<open>None\<close>) when one of these variables is not resolved. The rows
  are taken bottom to top.
\<close>

definition spec_leading :: "row \<Rightarrow> nat" where
  "spec_leading row = length (takeWhile null row)"

definition spec_solve_row :: "row \<Rightarrow> real option list \<Rightarrow> real option list option" where
  "spec_solve_row row vals =
     (let l = spec_leading row; js = [Suc l ..< length row - 1]
      in if list_all (\<lambda>j. j < length vals \<and> vals ! j \<noteq> None) js
         then Some (vals[l := Some ((last row - (\<Sum>j\<leftarrow>js. row ! j * the (vals ! j))) / row ! l)])
         else None)"

fun spec_back :: "row list \<Rightarrow> real option list \<Rightarrow> real option list option" where
  "spec_back [] vals = Some vals"
| "spec_back (row # rows) vals =
     (case spec_solve_row row vals of
        None \<Rightarrow> None
      | Some vals' \<Rightarrow> spec_back rows vals')"

text \<open>
  The whole query. \<open>spec_query_claimed\<close> takes in the third step the non-null rows that
  remain after the first step, as the sentence reads; \<open>spec_query\<close> takes every non-null
  row.
\<close>

definition spec_query_claimed :: "matrix \<Rightarrow> real list \<Rightarrow> real option list option" where
  "spec_query_claimed s v =
     spec_back
       (rev (filter (\<lambda>row. \<not> nullrow row \<and> length (spec_nonnull_coeffs row) \<noteq> 1) s))
       (spec_fill (map (spec_direct s) [0 ..< ncols s - 1]) v)"

definition spec_query :: "matrix \<Rightarrow> real list \<Rightarrow> real option list option" where
  "spec_query s v =
     spec_back (rev (filter (\<lambda>row. \<not> nullrow row) s))
       (spec_fill (map (spec_direct s) [0 ..< ncols s - 1]) v)"

section \<open>Properties of the solver\<close>

lemmas solver_defs =
  solve_def Solution_init_def Solution_bool_def ncols_def unique_equations_def nullrow_def
  null_def contradiction_def call_def count_def index_def first_nonzero_def
  pivot_index_def row_sub_def

lemma list_ex_contradiction:
  "list_ex contradiction s \<longleftrightarrow>
     (\<exists>row \<in> set s. (\<forall>c \<in> set (butlast row). null c) \<and> \<not> null (last row))"
  by (simp add: list_ex_iff contradiction_def list_all_iff)

lemma unique_equations_card:
  "unique_equations s = card {i. i < length s \<and> \<not> nullrow (s ! i)}"
  by (simp add: unique_equations_def length_filter_conv_card)

text \<open>
  C3. A Solution is falsy exactly when some row of the reduced matrix has only null
  coefficients and a non-null right-hand side, and querying a falsy Solution fails with
  the "no solution" error, whatever the arguments.
\<close>

theorem falsy_iff_contradiction_row:
  "(\<not> Solution_bool (Solution_init s)) =
     (\<exists>row \<in> set s. (\<forall>c \<in> set (butlast row). null c) \<and> \<not> null (last row))
   \<and> (\<not> Solution_bool (Solution_init s) \<longrightarrow> call (Solution_init s) v = Inl NoSolution)"
  by (simp add: Solution_bool_def Solution_init_def Let_def call_def list_ex_contradiction)

theorem falsy_iff_contradiction_row_witness:
  "(\<exists>row \<in> set [[0, 1 :: real]]. list_all null (butlast row) \<and> \<not> null (last row))
   \<and> \<not> Solution_bool (Solution_init [[0, 1]])
   \<and> call (Solution_init [[0, 1]]) [7] = Inl NoSolution"
proof -
  have row: "\<exists>row \<in> set [[0, 1 :: real]]. (\<forall>c \<in> set (butlast row). null c) \<and> \<not> null (last row)"
    by (simp add: null_def)
  from row falsy_iff_contradiction_row [of "[[0, 1]]" "[7]"]
  have "\<not> Solution_bool (Solution_init [[0, 1]])"
    and "call (Solution_init [[0, 1]]) [7] = Inl NoSolution"
    by blast+
  with row show ?thesis by (simp add: list_all_iff)
qed

text \<open>
  C4, as stated, fails for an unsolvable Solution: the system \<open>0 x = 1\<close> has the
  free-parameter count 0, and a query with one argument fails with the "no solution"
  error, not with the count mismatch.
\<close>

theorem count_mismatch_counterexample:
  "int (length [5 :: real]) \<noteq> varargs (solve [[0, 1]])
   \<and> call (solve [[0, 1]]) [5] = Inl NoSolution
   \<and> call (solve [[0, 1]]) [5] \<noteq> Inl (CountMismatch (varargs (solve [[0, 1]])) (length [5 :: real]))"
  by (simp add: solver_defs)

text \<open>
  C4, amended. The free-parameter count is the variable count minus the number of rows
  that are not entirely null; \<open>exact\<close> holds exactly when that count is 0; and a
  solvable Solution called with a number of arguments different from the free-parameter
  count fails with the count-mismatch error.
\<close>

theorem varargs_exact_count_mismatch:
  "varargs (Solution_init s) =
     int (varcount (Solution_init s)) - int (card {i. i < length s \<and> \<not> nullrow (s ! i)})
   \<and> exact (Solution_init s) = (varargs (Solution_init s) = 0)
   \<and> (Solution_bool (Solution_init s) \<and> int (length v) \<noteq> varargs (Solution_init s) \<longrightarrow>
        call (Solution_init s) v =
          Inl (CountMismatch (varargs (Solution_init s)) (length v)))"
  by (simp add: Solution_bool_def Solution_init_def Let_def call_def unique_equations_card)

theorem varargs_exact_count_mismatch_witness:
  "Solution_bool (solve [[1, 1, 2]]) \<and> int (length ([] :: real list)) \<noteq> varargs (solve [[1, 1, 2]])
   \<and> varargs (solve [[1, 1, 2]]) = 1 \<and> \<not> exact (solve [[1, 1, 2]])
   \<and> call (solve [[1, 1, 2]]) [] = Inl (CountMismatch 1 0)"
proof -
  have u: "lu_upper 0 [[1, 1, 2]] = [[1, 1, 2]]"
    by (simp add: solver_defs)
  have pre: "Solution_bool (Solution_init [[1, 1, 2]])"
    and va: "varargs (Solution_init [[1, 1, 2]]) = 1"
    by (simp_all add: solver_defs)
  from va have ne: "int (length ([] :: real list)) \<noteq> varargs (Solution_init [[1, 1, 2]])"
    by simp
  from varargs_exact_count_mismatch [of "[[1, 1, 2]]" "[]"] pre ne va
  have "\<not> exact (Solution_init [[1, 1, 2]])"
    and "call (Solution_init [[1, 1, 2]]) [] = Inl (CountMismatch 1 0)"
    by auto
  with pre ne va show ?thesis unfolding solve_def u by simp
qed

text \<open>
  C1 at the consistent system \<open>0 x + y + z = 2\<close> (the general form of a plane with the
  normal \<open>(0, 1, 1)\<close>): the Solution is solvable and asks for two free parameters, and
  the query with the two values \<open>1, 1\<close> returns \<open>(None, 1, 1)\<close>, which gives the first
  variable no value.
\<close>

theorem query_leaves_variable_unresolved:
  "Solution_bool (solve [[0, 1, 1, 2]]) \<and> varargs (solve [[0, 1, 1, 2]]) = 2
   \<and> call (solve [[0, 1, 1, 2]]) [1, 1] = Inr [None, Some 1, Some 1]"
  by (simp add: solver_defs)

section \<open>Properties of points\<close>

lemma Vector_sel [simp]:
  "vec_x (Vector a b c) = a" "vec_y (Vector a b c) = b" "vec_z (Vector a b c) = c"
  by (simp_all add: Vector_def)

lemma Point_sel [simp]:
  "point_x (Point a b c) = a" "point_y (Point a b c) = b" "point_z (Point a b c) = c"
  by (simp_all add: Point_def)

lemma Line_sel [simp]: "sv (Line s d) = s" "dv (Line s d) = d"
  by (simp_all add: Line_def)

lemma Plane_sel [simp]: "plane_p (Plane a normale) = a" "plane_n (Plane a normale) = normale"
  by (simp_all add: Plane_def)

lemma Vector_eq_iff: "Vector a b c = Vector d e f \<longleftrightarrow> a = d \<and> b = e \<and> c = f"
  by (simp add: Vector_def)


text \<open>
  C9, as stated, fails: item assignment is part of the public interface of a Point and
  overwrites a coordinate.
\<close>

theorem point_setitem_counterexample:
  "Point_setitem (Point 1 2 3) 0 9 = Inr (Point 9 2 3)
   \<and> point_x (Point 9 2 3) \<noteq> point_x (Point 1 2 3)"
  by (simp add: Point_setitem_def index3_def setattr_def Point_def)

lemma index3_mod: "- 3 \<le> item \<Longrightarrow> item \<le> 2 \<Longrightarrow> index3 item = Inr (nat (item mod 3))"
proof -
  assume "- 3 \<le> item" "item \<le> 2"
  then consider "item = - 3" | "item = - 2" | "item = - 1" | "item = 0" | "item = 1" | "item = 2"
    by linarith
  then show ?thesis
    by cases (simp_all add: index3_def)
qed

lemma coords_setattr:
  "i < 3 \<Longrightarrow>
     [point_x (setattr self (''xyz'' ! i) v), point_y (setattr self (''xyz'' ! i) v),
      point_z (setattr self (''xyz'' ! i) v)] = [point_x self, point_y self, point_z self][i := v]"
proof -
  assume "i < 3"
  then consider "i = 0" | "i = 1" | "i = 2"
    by linarith
  then show ?thesis
    by cases (simp_all add: setattr_def)
qed

text \<open>
  C9, amended. Item assignment is the one mutator of a Point: for an index from \<open>-3\<close>
  to \<open>2\<close> it overwrites the coordinate at that index, which then reads back as the
  assigned value, and it leaves the other two coordinates as they were; for any other
  index it fails with IndexError. No other method of Point changes the coordinates.
\<close>

theorem point_setitem_overwrites_one_coordinate:
  "(Point_setitem self item v = Inl IndexError \<longleftrightarrow> item < - 3 \<or> 2 < item)
   \<and> (\<forall>self'. Point_setitem self item v = Inr self' \<longrightarrow>
         Point_getitem self' item = Inr v
         \<and> (\<forall>j. - 3 \<le> j \<and> j \<le> 2 \<and> j mod 3 \<noteq> item mod 3 \<longrightarrow>
                Point_getitem self' j = Point_getitem self j))
   \<and> (\<forall>m. Point_after self m \<noteq> self \<longrightarrow> (\<exists>i x. m = Setitem i x))"
proof -
  have frame: "\<forall>m. Point_after self m \<noteq> self \<longrightarrow> (\<exists>i x. m = Setitem i x)"
  proof (intro allI impI)
    fix m assume "Point_after self m \<noteq> self"
    then show "\<exists>i x. m = Setitem i x"
      by (cases m) simp_all
  qed
  have setitem:
    "(Point_setitem self item v = Inl IndexError \<longleftrightarrow> item < - 3 \<or> 2 < item)
     \<and> (\<forall>self'. Point_setitem self item v = Inr self' \<longrightarrow>
           Point_getitem self' item = Inr v
           \<and> (\<forall>j. - 3 \<le> j \<and> j \<le> 2 \<and> j mod 3 \<noteq> item mod 3 \<longrightarrow>
                  Point_getitem self' j = Point_getitem self j))"
  proof (cases "- 3 \<le> item \<and> item \<le> 2")
    case False
    then show ?thesis
      by (auto simp: Point_setitem_def index3_def)
  next
    case True
    let ?i = "nat (item mod 3)"
    have i: "index3 item = Inr ?i" "?i < 3"
      using True by (simp_all add: index3_mod)
    have set: "Point_setitem self item v = Inr (setattr self (''xyz'' ! ?i) v)"
      by (simp add: Point_setitem_def i)
    have same: "Point_getitem (setattr self (''xyz'' ! ?i) v) item = Inr v"
      using i by (simp add: Point_getitem_def coords_setattr del: list_update.simps)
    have other: "Point_getitem (setattr self (''xyz'' ! ?i) v) j = Point_getitem self j"
      if "- 3 \<le> j \<and> j \<le> 2 \<and> j mod 3 \<noteq> item mod 3" for j
    proof -
      have "index3 j = Inr (nat (j mod 3))" "nat (j mod 3) \<noteq> ?i"
        using that by (simp_all add: index3_mod nat_eq_iff)
      then show ?thesis
        using i by (simp add: Point_getitem_def coords_setattr del: list_update.simps)
    qed
    from True set same other show ?thesis
      by auto
  qed
  from setitem frame show ?thesis
    by blast
qed

theorem point_setitem_overwrites_one_coordinate_witness:
  "Point_setitem (Point 1 2 3) (- 1) 9 = Inr (Point 1 2 9)
   \<and> Point_getitem (Point 1 2 9) (- 1) = Inr 9
   \<and> Point_getitem (Point 1 2 9) 0 = Point_getitem (Point 1 2 3) 0
   \<and> Point_setitem (Point 1 2 3) 3 9 = Inl IndexError
   \<and> Point_after (Point 1 2 3) (Setitem (- 1) 9) = Point 1 2 9
   \<and> Point_after (Point 1 2 3) Pv = Point 1 2 3"
proof -
  have set: "Point_setitem (Point 1 2 3) (- 1) 9 = Inr (Point 1 2 9)"
    by (simp add: Point_setitem_def index3_def setattr_def Point_def)
  have j: "- 3 \<le> (0 :: int) \<and> (0 :: int) \<le> 2 \<and> (0 :: int) mod 3 \<noteq> (- 1) mod 3"
    by simp
  from point_setitem_overwrites_one_coordinate [of "Point 1 2 3" "- 1" 9] set j
  have "Point_getitem (Point 1 2 9) (- 1) = Inr 9"
    and "Point_getitem (Point 1 2 9) 0 = Point_getitem (Point 1 2 3) 0"
    by blast+
  moreover from point_setitem_overwrites_one_coordinate [of "Point 1 2 3" 3 9]
  have "Point_setitem (Point 1 2 3) 3 9 = Inl IndexError"
    by simp
  moreover from point_setitem_overwrites_one_coordinate [of "Point 1 2 3" "- 1" 9]
  have "\<not> (\<exists>i x. Pv = Setitem i x) \<longrightarrow> Point_after (Point 1 2 3) Pv = Point 1 2 3"
    by blast
  then have "Point_after (Point 1 2 3) Pv = Point 1 2 3"
    by simp
  ultimately show ?thesis using set by simp
qed

section \<open>Properties of the relations\<close>

text \<open>
  C8. For every pair of arguments whose kinds are not a supported combination of the
  relation, the five relations return the marker \<open>NotImplemented\<close>, which is how the
  code signals an unsupported operation.
\<close>

theorem unsupported_pairs_not_implemented:
  "(\<not> spec_supported_relation a b \<longrightarrow>
      intersection a b = Inr NotImplementedV \<and> parallel a b = NotImplementedV
      \<and> angle a b = Inr NotImplementedV \<and> orthogonal a b = NotImplementedV)
   \<and> (\<not> spec_supported_distance a b \<longrightarrow> distance a b = Some (Inr NotImplementedV))"
proof (intro conjI impI)
  assume u: "\<not> spec_supported_relation a b"
  then show "intersection a b = Inr NotImplementedV"
    by (cases a; cases b) (simp_all add: spec_supported_relation_def intersection.simps)
  from u show "parallel a b = NotImplementedV"
    by (cases a; cases b) (simp_all add: spec_supported_relation_def parallel.simps)
  from u show "angle a b = Inr NotImplementedV"
    by (cases a; cases b) (simp_all add: spec_supported_relation_def angle.simps)
  from u show "orthogonal a b = NotImplementedV"
    by (cases a; cases b) (simp_all add: spec_supported_relation_def orthogonal.simps)
next
  assume "\<not> spec_supported_distance a b"
  then show "distance a b = Some (Inr NotImplementedV)"
    by (cases a; cases b) (simp_all add: spec_supported_distance_def distance.simps)
qed

theorem unsupported_pairs_not_implemented_witness:
  "\<not> spec_supported_relation (PointV (Point 0 0 0)) (PointV (Point 1 0 0))
   \<and> orthogonal (PointV (Point 0 0 0)) (PointV (Point 1 0 0)) = NotImplementedV
   \<and> intersection (PointV (Point 0 0 0)) (PointV (Point 1 0 0)) = Inr NotImplementedV
   \<and> \<not> spec_supported_distance (PlaneV (Plane (Point 0 0 0) (Vector 0 0 1))) NoneV
   \<and> distance (PlaneV (Plane (Point 0 0 0) (Vector 0 0 1))) NoneV = Some (Inr NotImplementedV)"
proof -
  have r: "\<not> spec_supported_relation (PointV (Point 0 0 0)) (PointV (Point 1 0 0))"
    by (simp add: spec_supported_relation_def)
  have d: "\<not> spec_supported_distance (PlaneV (Plane (Point 0 0 0) (Vector 0 0 1))) NoneV"
    by (simp add: spec_supported_distance_def)
  from r unsupported_pairs_not_implemented
    [of "PointV (Point 0 0 0)" "PointV (Point 1 0 0)"]
  have "orthogonal (PointV (Point 0 0 0)) (PointV (Point 1 0 0)) = NotImplementedV"
    and "intersection (PointV (Point 0 0 0)) (PointV (Point 1 0 0)) = Inr NotImplementedV"
    by blast+
  moreover from d unsupported_pairs_not_implemented
    [of "PlaneV (Plane (Point 0 0 0) (Vector 0 0 1))" NoneV]
  have "distance (PlaneV (Plane (Point 0 0 0) (Vector 0 0 1))) NoneV = Some (Inr NotImplementedV)"
    by blast
  ultimately show ?thesis using r d by simp
qed

subsection \<open>Angles\<close>

lemma Vector_length_zero_iff: "Vector_length v = 0 \<longleftrightarrow> v = Vector 0 0 0"
proof -
  have "vec_x v * vec_x v + vec_y v * vec_y v + vec_z v * vec_z v = 0
          \<longleftrightarrow> vec_x v = 0 \<and> vec_y v = 0 \<and> vec_z v = 0"
    by (smt (verit) mult_eq_0_iff zero_le_square)
  then show ?thesis
    by (cases v) (simp add: Vector_length_def Vector_dot_def Vector_def)
qed

lemma Vector_length_nonneg: "0 \<le> Vector_length v"
  by (simp add: Vector_length_def Vector_dot_def)

lemma cauchy_schwarz3: "\<bar>Vector_dot v w\<bar> \<le> Vector_length v * Vector_length w"
proof -
  obtain a b c where v: "v = Vector a b c" by (cases v) (simp add: Vector_def)
  obtain d e f where w: "w = Vector d e f" by (cases w) (simp add: Vector_def)
  have lag: "Vector_dot v v * Vector_dot w w - (Vector_dot v w)\<^sup>2 =
     (b * f - c * e)\<^sup>2 + (c * d - a * f)\<^sup>2 + (a * e - b * d)\<^sup>2"
    by (simp add: v w Vector_dot_def Vector_def power2_eq_square algebra_simps)
  have "(Vector_dot v w)\<^sup>2 \<le> Vector_dot v v * Vector_dot w w"
    using lag by (smt (verit) zero_le_power2)
  then have "sqrt ((Vector_dot v w)\<^sup>2) \<le> sqrt (Vector_dot v v * Vector_dot w w)"
    by (rule real_sqrt_le_mono)
  then show ?thesis
    by (simp add: Vector_length_def real_sqrt_mult)
qed

lemma Vector_angle_range:
  assumes "v \<noteq> Vector 0 0 0" "w \<noteq> Vector 0 0 0"
  shows "\<exists>raw. Vector_angle v w = Inr raw \<and> 0 \<le> raw \<and> raw \<le> pi"
proof -
  have lpos: "0 < Vector_length v" "0 < Vector_length w"
    using assms Vector_length_zero_iff Vector_length_nonneg
    by (metis less_eq_real_def)+
  then have pos: "0 < Vector_length v * Vector_length w"
    by simp
  let ?q = "Vector_dot v w / (Vector_length v * Vector_length w)"
  have "\<bar>?q\<bar> = \<bar>Vector_dot v w\<bar> / (Vector_length v * Vector_length w)"
    using pos by (metis abs_divide abs_of_pos)
  also have "\<dots> \<le> 1"
    using cauchy_schwarz3 [of v w] pos by (simp add: divide_le_eq)
  finally have "- 1 \<le> ?q" "?q \<le> 1" by linarith+
  then have "0 \<le> arccos ?q" "arccos ?q \<le> pi"
    by (simp_all add: arccos_lbound arccos_ubound)
  with lpos show ?thesis by (simp add: Vector_angle_def)
qed

lemma acute_spec: "acute raw = spec_acute raw"
  by (simp add: acute_def spec_acute_def)

lemma spec_acute_range: "0 \<le> raw \<Longrightarrow> raw \<le> pi \<Longrightarrow> 0 \<le> spec_acute raw \<and> spec_acute raw \<le> pi / 2"
  by (simp add: spec_acute_def)

lemma angle_line_line:
  "angle (LineV l) (LineV m) =
     (case Vector_angle (dv l) (dv m) of Inl e \<Rightarrow> Inl e | Inr raw \<Rightarrow> Inr (FloatV (acute raw)))"
  by (simp add: angle.simps)

lemma angle_plane_plane:
  "angle (PlaneV e) (PlaneV f) =
     (case Vector_angle (plane_n e) (plane_n f) of
        Inl err \<Rightarrow> Inl err | Inr raw \<Rightarrow> Inr (FloatV (acute raw)))"
  by (simp add: angle.simps)

lemma angle_line_plane:
  "angle (LineV l) (PlaneV e) =
     (case Vector_angle (dv l) (plane_n e) of
        Inl err \<Rightarrow> Inl err | Inr raw \<Rightarrow> Inr (FloatV (0.5 * pi - acute raw)))"
  by (simp add: angle.simps Let_def split: sum.splits)

lemma angle_plane_line: "angle (PlaneV e) (LineV l) = angle (LineV l) (PlaneV e)"
  by (subst angle.simps) simp

text \<open>
  C6. For lines and planes with nonzero directions and normals the angle of every
  supported pair is computed and lies between 0 and \<open>pi / 2\<close>: Line/Line and Plane/Plane
  give the acute representative of the angle between the directions and between the
  normals, Line/Plane in either order gives \<open>pi / 2\<close> minus the acute representative of
  the angle between the direction and the normal.
\<close>

theorem angle_acute_range:
  assumes "dv l \<noteq> Vector 0 0 0" and "dv m \<noteq> Vector 0 0 0"
    and "plane_n e \<noteq> Vector 0 0 0" and "plane_n f \<noteq> Vector 0 0 0"
  shows "\<exists>r1 r2 r3.
     Vector_angle (dv l) (dv m) = Inr r1
     \<and> Vector_angle (plane_n e) (plane_n f) = Inr r2
     \<and> Vector_angle (dv l) (plane_n e) = Inr r3
     \<and> angle (LineV l) (LineV m) = Inr (FloatV (spec_acute r1))
     \<and> angle (PlaneV e) (PlaneV f) = Inr (FloatV (spec_acute r2))
     \<and> angle (LineV l) (PlaneV e) = Inr (FloatV (pi / 2 - spec_acute r3))
     \<and> angle (PlaneV e) (LineV l) = Inr (FloatV (pi / 2 - spec_acute r3))
     \<and> 0 \<le> spec_acute r1 \<and> spec_acute r1 \<le> pi / 2
     \<and> 0 \<le> spec_acute r2 \<and> spec_acute r2 \<le> pi / 2
     \<and> 0 \<le> pi / 2 - spec_acute r3 \<and> pi / 2 - spec_acute r3 \<le> pi / 2"
proof -
  obtain r1 where r1: "Vector_angle (dv l) (dv m) = Inr r1" "0 \<le> r1" "r1 \<le> pi"
    using Vector_angle_range [OF assms(1) assms(2)] by blast
  obtain r2 where r2: "Vector_angle (plane_n e) (plane_n f) = Inr r2" "0 \<le> r2" "r2 \<le> pi"
    using Vector_angle_range [OF assms(3) assms(4)] by blast
  obtain r3 where r3: "Vector_angle (dv l) (plane_n e) = Inr r3" "0 \<le> r3" "r3 \<le> pi"
    using Vector_angle_range [OF assms(1) assms(3)] by blast
  have a1: "angle (LineV l) (LineV m) = Inr (FloatV (spec_acute r1))"
    by (simp add: angle_line_line r1 acute_spec)
  have a2: "angle (PlaneV e) (PlaneV f) = Inr (FloatV (spec_acute r2))"
    by (simp add: angle_plane_plane r2 acute_spec)
  have a3: "angle (LineV l) (PlaneV e) = Inr (FloatV (pi / 2 - spec_acute r3))"
    by (simp add: angle_line_plane r3 acute_spec)
  have a4: "angle (PlaneV e) (LineV l) = Inr (FloatV (pi / 2 - spec_acute r3))"
    by (simp add: angle_plane_line a3)
  from spec_acute_range [OF r1(2) r1(3)] spec_acute_range [OF r2(2) r2(3)]
    spec_acute_range [OF r3(2) r3(3)]
  have "0 \<le> spec_acute r1 \<and> spec_acute r1 \<le> pi / 2
     \<and> 0 \<le> spec_acute r2 \<and> spec_acute r2 \<le> pi / 2
     \<and> 0 \<le> pi / 2 - spec_acute r3 \<and> pi / 2 - spec_acute r3 \<le> pi / 2"
    by simp
  with r1(1) r2(1) r3(1) a1 a2 a3 a4 show ?thesis
    by blast
qed

theorem angle_acute_range_witness:
  "dv (Line (Vector 0 0 0) (Vector 1 0 0)) \<noteq> Vector 0 0 0
   \<and> dv (Line (Vector 0 0 0) (Vector 0 1 0)) \<noteq> Vector 0 0 0
   \<and> plane_n (Plane (Point 0 0 0) (Vector 0 0 1)) \<noteq> Vector 0 0 0
   \<and> plane_n (Plane (Point 0 0 0) (Vector 1 1 0)) \<noteq> Vector 0 0 0
   \<and> (\<exists>a1 a2 a3.
        angle (LineV (Line (Vector 0 0 0) (Vector 1 0 0)))
              (LineV (Line (Vector 0 0 0) (Vector 0 1 0))) = Inr (FloatV a1)
        \<and> angle (PlaneV (Plane (Point 0 0 0) (Vector 0 0 1)))
                (PlaneV (Plane (Point 0 0 0) (Vector 1 1 0))) = Inr (FloatV a2)
        \<and> angle (PlaneV (Plane (Point 0 0 0) (Vector 0 0 1)))
                (LineV (Line (Vector 0 0 0) (Vector 1 0 0))) = Inr (FloatV a3)
        \<and> 0 \<le> a1 \<and> a1 \<le> pi / 2 \<and> 0 \<le> a2 \<and> a2 \<le> pi / 2 \<and> 0 \<le> a3 \<and> a3 \<le> pi / 2)"
proof -
  have h: "dv (Line (Vector 0 0 0) (Vector 1 0 0)) \<noteq> Vector 0 0 0"
    "dv (Line (Vector 0 0 0) (Vector 0 1 0)) \<noteq> Vector 0 0 0"
    "plane_n (Plane (Point 0 0 0) (Vector 0 0 1)) \<noteq> Vector 0 0 0"
    "plane_n (Plane (Point 0 0 0) (Vector 1 1 0)) \<noteq> Vector 0 0 0"
    by (simp_all add: Line_def Plane_def Vector_def)
  from angle_acute_range [OF h] h show ?thesis
    by blast
qed

subsection \<open>Distances\<close>

lemma Vector_cross_swap: "Vector_cross w v = Vector_scale (- 1) (Vector_cross v w)"
  by (simp add: Vector_cross_def Vector_scale_def Vector_def)

lemma Vector_length_neg: "Vector_length (Vector_scale (- 1) u) = Vector_length u"
  by (simp add: Vector_length_def Vector_dot_def Vector_scale_def Vector_def)

lemma Vector_normalized_neg:
  "Vector_normalized (Vector_scale (- 1) u) =
     (case Vector_normalized u of Inl e \<Rightarrow> Inl e | Inr n \<Rightarrow> Inr (Vector_scale (- 1) n))"
  by (simp add: Vector_normalized_def Vector_length_neg) (simp add: Vector_scale_def Vector_def)

lemma Vector_dot_sub_neg:
  "Vector_dot (Vector_sub a b) (Vector_scale (- 1) n) = Vector_dot (Vector_sub b a) n"
  by (simp add: Vector_dot_def Vector_sub_def Vector_scale_def Vector_def algebra_simps)

lemma Vector_length_between: "Vector_length (Vector_between p q) = Vector_length (Vector_between q p)"
  by (simp add: Vector_length_def Vector_between_def Vector_dot_def Vector_def
      power2_eq_square [symmetric] power2_commute)

lemma distance_point_point:
  "distance (PointV p) (PointV q) = Some (Inr (FloatV (Vector_length (Vector_between p q))))"
  by (subst distance.simps) simp

lemma distance_line_line:
  "distance (LineV l) (LineV m) =
     (case Vector_normalized (Vector_cross (dv l) (dv m)) of
        Inl e \<Rightarrow> Some (Inl e)
      | Inr normale \<Rightarrow> Some (Inr (FloatV \<bar>Vector_dot (Vector_sub (sv m) (sv l)) normale\<bar>)))"
  by (subst distance.simps) simp

lemma distance_swapped:
  "distance (LineV l) (PointV p) = distance (PointV p) (LineV l)"
  "distance (PlaneV e) (PointV p) = distance (PointV p) (PlaneV e)"
  "distance (PlaneV e) (LineV l) = distance (LineV l) (PlaneV e)"
  by (subst distance.simps, simp)+

lemma distance_point_point_sym:
  "distance (PointV p) (PointV q) = distance (PointV q) (PointV p)"
  by (simp add: distance_point_point Vector_length_between)

lemma distance_line_line_sym: "distance (LineV l) (LineV m) = distance (LineV m) (LineV l)"
  by (simp add: distance_line_line Vector_cross_swap [of "dv l" "dv m"] Vector_normalized_neg
      Vector_dot_sub_neg split: sum.splits)

lemma distance_unsupported:
  "\<not> spec_supported_distance a b \<Longrightarrow> distance a b = Some (Inr NotImplementedV)"
  by (cases a; cases b) (simp_all add: spec_supported_distance_def distance.simps)

lemma spec_supported_distance_sym: "spec_supported_distance a b = spec_supported_distance b a"
  by (cases a; cases b) (simp_all add: spec_supported_distance_def)

text \<open>
  C7. \<open>distance(a, b)\<close> and \<open>distance(b, a)\<close> are the same: the same number, the same
  error, or neither call returns. It holds for every pair of arguments, the supported
  symmetric pairs among them.
\<close>

theorem distance_symmetric: "distance a b = distance b a"
proof (cases "spec_supported_distance a b")
  case False
  then show ?thesis
    using spec_supported_distance_sym [of a b]
    by (simp add: distance_unsupported)
next
  case True
  then show ?thesis
    by (cases a; cases b)
      (simp_all add: spec_supported_distance_def distance_swapped
        distance_point_point_sym [of _ _] distance_line_line_sym [of _ _])
qed

theorem distance_symmetric_witness:
  "distance (PointV (Point 0 0 0)) (PlaneV (Plane (Point 0 0 1) (Vector 0 0 1))) = Some (Inr (FloatV 1))
   \<and> distance (PlaneV (Plane (Point 0 0 1) (Vector 0 0 1))) (PointV (Point 0 0 0)) = Some (Inr (FloatV 1))"
proof -
  have foot: "intersection (LineV (Line_of_point (Point 0 0 0) (Vector 0 0 1)))
        (PlaneV (Plane (Point 0 0 1) (Vector 0 0 1))) = Inr (PointV (Point 0 0 1))"
    by (simp add: intersection.simps parallel.simps Plane_contains_line_def
        Plane_contains_point_def Line_of_point_def pv_def Vector_dot_def Point_of_vector_def
        Vector_orthogonal_def null_def Vector_add_def Vector_scale_def)
  have "distance (PointV (Point 0 0 0)) (PlaneV (Plane (Point 0 0 1) (Vector 0 0 1))) =
          distance (PointV (Point 0 0 0)) (PointV (Point 0 0 1))"
    by (subst distance.simps) (simp add: foot)
  also have "\<dots> = Some (Inr (FloatV 1))"
    by (simp add: distance_point_point Vector_length_def Vector_between_def Vector_dot_def)
  finally have d: "distance (PointV (Point 0 0 0)) (PlaneV (Plane (Point 0 0 1) (Vector 0 0 1))) =
      Some (Inr (FloatV 1))" .
  with distance_symmetric [of "PlaneV (Plane (Point 0 0 1) (Vector 0 0 1))" "PointV (Point 0 0 0)"]
  show ?thesis by simp
qed

subsection \<open>Coincident lines\<close>

lemma not_null_nonzero: "\<not> null p \<Longrightarrow> p \<noteq> 0"
  by (auto simp: null_def)

lemma null_mono: "\<bar>x\<bar> \<le> \<bar>y\<bar> \<Longrightarrow> null y \<Longrightarrow> null x"
  by (simp add: null_def)

lemma lu_tail_zero: "lu_upper 1 [[0, 0, 0], [0, 0, 0]] = [[0, 0, 0], [0, 0, 0]]"
  by (simp add: pivot_index_def Let_def)

lemma elim_rank1:
  "p \<noteq> 0 \<Longrightarrow> row_sub [d, - (k * d), t * d] (d / p) [p, - (k * p), t * p] = [0, 0, 0]"
  by (simp add: row_sub_def)

lemma lu_rank1:
  assumes "\<not> null d0 \<or> \<not> null d1 \<or> \<not> null d2"
  shows "\<exists>p. \<not> null p \<and>
     lu_upper 0 [[d0, - (k * d0), t * d0], [d1, - (k * d1), t * d1], [d2, - (k * d2), t * d2]] =
       [[p, - (k * p), t * p], [0, 0, 0], [0, 0, 0]]"
proof -
  consider (A) "\<not> \<bar>d0\<bar> < \<bar>d1\<bar>" "\<not> \<bar>d0\<bar> < \<bar>d2\<bar>"
    | (B) "\<not> \<bar>d0\<bar> < \<bar>d1\<bar>" "\<bar>d0\<bar> < \<bar>d2\<bar>"
    | (C) "\<bar>d0\<bar> < \<bar>d1\<bar>" "\<not> \<bar>d1\<bar> < \<bar>d2\<bar>"
    | (D) "\<bar>d0\<bar> < \<bar>d1\<bar>" "\<bar>d1\<bar> < \<bar>d2\<bar>"
    by linarith
  then show ?thesis
  proof cases
    case A
    then have n: "\<not> null d0"
      using assms null_mono [of d1 d0] null_mono [of d2 d0] by auto
    then have z: "d0 \<noteq> 0" by (rule not_null_nonzero)
    have "lu_upper 0 [[d0, - (k * d0), t * d0], [d1, - (k * d1), t * d1], [d2, - (k * d2), t * d2]] =
       [[d0, - (k * d0), t * d0], [0, 0, 0], [0, 0, 0]]"
      using A z by (simp add: pivot_index_def elim_rank1 lu_tail_zero Let_def)
    with n show ?thesis by blast
  next
    case B
    then have n: "\<not> null d2"
      using assms null_mono [of d1 d2] null_mono [of d0 d2] by auto
    then have z: "d2 \<noteq> 0" by (rule not_null_nonzero)
    have "lu_upper 0 [[d0, - (k * d0), t * d0], [d1, - (k * d1), t * d1], [d2, - (k * d2), t * d2]] =
       [[d2, - (k * d2), t * d2], [0, 0, 0], [0, 0, 0]]"
      using B z by (simp add: pivot_index_def elim_rank1 lu_tail_zero Let_def)
    with n show ?thesis by blast
  next
    case C
    then have n: "\<not> null d1"
      using assms null_mono [of d0 d1] null_mono [of d2 d1] by auto
    then have z: "d1 \<noteq> 0" by (rule not_null_nonzero)
    have "lu_upper 0 [[d0, - (k * d0), t * d0], [d1, - (k * d1), t * d1], [d2, - (k * d2), t * d2]] =
       [[d1, - (k * d1), t * d1], [0, 0, 0], [0, 0, 0]]"
      using C z by (simp add: pivot_index_def elim_rank1 lu_tail_zero Let_def)
    with n show ?thesis by blast
  next
    case D
    then have n: "\<not> null d2"
      using assms null_mono [of d1 d2] null_mono [of d0 d2] by auto
    then have z: "d2 \<noteq> 0" by (rule not_null_nonzero)
    have "lu_upper 0 [[d0, - (k * d0), t * d0], [d1, - (k * d1), t * d1], [d2, - (k * d2), t * d2]] =
       [[d2, - (k * d2), t * d2], [0, 0, 0], [0, 0, 0]]"
      using D z by (simp add: pivot_index_def elim_rank1 lu_tail_zero Let_def)
    with n show ?thesis by blast
  qed
qed

lemma rank1_solution:
  assumes "\<not> null p"
  shows "Solution_bool (Solution_init [[p, - (k * p), t * p], [0, 0, 0], [0, 0, 0]])"
    and "varargs (Solution_init [[p, - (k * p), t * p], [0, 0, 0], [0, 0, 0]]) = 1"
  using assms
  by (simp_all add: Solution_bool_def Solution_init_def ncols_def unique_equations_def
      nullrow_def contradiction_def null_def)

lemma coincident_matrix:
  assumes "dv b = Vector_scale k (dv a)"
    and "sv b = Vector_add (sv a) (Vector_scale t (dv a))"
  shows "line_line_matrix a b =
     [[vec_x (dv a), - (k * vec_x (dv a)), t * vec_x (dv a)],
      [vec_y (dv a), - (k * vec_y (dv a)), t * vec_y (dv a)],
      [vec_z (dv a), - (k * vec_z (dv a)), t * vec_z (dv a)]]"
  by (simp add: line_line_matrix_def assms Vector_scale_def Vector_add_def)

lemma intersection_line_line_unsolvable:
  "\<not> Solution_bool (solve (line_line_matrix l m)) \<Longrightarrow>
     intersection (LineV l) (LineV m) = Inr NoneV"
  by (subst intersection.simps) simp

lemma intersection_line_line_error:
  "Solution_bool (solve (line_line_matrix l m)) \<Longrightarrow>
   call (solve (line_line_matrix l m)) [] = Inl err \<Longrightarrow>
     intersection (LineV l) (LineV m) = Inl err"
  by (subst intersection.simps) simp

text \<open>
  C10, as stated, fails for coincident lines with a direction vector below the tolerance:
  the lines through the origin and through \<open>(1, 0, 0)\<close> with the direction
  \<open>(1e-11, 0, 0)\<close> are the same set of points, the reduced system has the row
  \<open>(1e-11, -1e-11, 1)\<close>, whose coefficients are null and whose right-hand side is not,
  so the Solution is unsolvable and \<open>intersection\<close> returns \<open>None\<close>.
\<close>

theorem coincident_lines_counterexample:
  "dv (Line (Vector 1 0 0) (Vector (1 / 10 ^ 11) 0 0)) =
     Vector_scale 1 (dv (Line (Vector 0 0 0) (Vector (1 / 10 ^ 11) 0 0)))
   \<and> sv (Line (Vector 1 0 0) (Vector (1 / 10 ^ 11) 0 0)) =
       Vector_add (sv (Line (Vector 0 0 0) (Vector (1 / 10 ^ 11) 0 0)))
         (Vector_scale (10 ^ 11) (dv (Line (Vector 0 0 0) (Vector (1 / 10 ^ 11) 0 0))))
   \<and> \<not> Solution_bool (solve (line_line_matrix
         (Line (Vector 0 0 0) (Vector (1 / 10 ^ 11) 0 0))
         (Line (Vector 1 0 0) (Vector (1 / 10 ^ 11) 0 0))))
   \<and> intersection (LineV (Line (Vector 0 0 0) (Vector (1 / 10 ^ 11) 0 0)))
        (LineV (Line (Vector 1 0 0) (Vector (1 / 10 ^ 11) 0 0))) = Inr NoneV"
proof -
  have u: "lu_upper 0 [[1 / 10 ^ 11, - (1 / 10 ^ 11), 1], [0, 0, 0], [0, 0, 0]] =
      [[1 / 10 ^ 11, - (1 / 10 ^ 11), 1], [0, 0, 0], [0, 0, 0]]"
    by (simp add: pivot_index_def row_sub_def Let_def)
  have m: "line_line_matrix (Line (Vector 0 0 0) (Vector (1 / 10 ^ 11) 0 0))
      (Line (Vector 1 0 0) (Vector (1 / 10 ^ 11) 0 0)) =
      [[1 / 10 ^ 11, - (1 / 10 ^ 11), 1], [0, 0, 0], [0, 0, 0]]"
    by (simp add: line_line_matrix_def)
  have f: "\<not> Solution_bool (Solution_init [[1 / 10 ^ 11, - (1 / 10 ^ 11), 1], [0, 0, 0], [0, 0, 0]])"
    by (simp add: Solution_bool_def Solution_init_def contradiction_def null_def Let_def)
  have f': "\<not> Solution_bool (solve (line_line_matrix
         (Line (Vector 0 0 0) (Vector (1 / 10 ^ 11) 0 0))
         (Line (Vector 1 0 0) (Vector (1 / 10 ^ 11) 0 0))))"
    unfolding m solve_def u by (rule f)
  have i: "intersection (LineV (Line (Vector 0 0 0) (Vector (1 / 10 ^ 11) 0 0)))
        (LineV (Line (Vector 1 0 0) (Vector (1 / 10 ^ 11) 0 0))) = Inr NoneV"
    using f' by (rule intersection_line_line_unsolvable)
  have e: "dv (Line (Vector 1 0 0) (Vector (1 / 10 ^ 11) 0 0)) =
     Vector_scale 1 (dv (Line (Vector 0 0 0) (Vector (1 / 10 ^ 11) 0 0)))"
    "sv (Line (Vector 1 0 0) (Vector (1 / 10 ^ 11) 0 0)) =
       Vector_add (sv (Line (Vector 0 0 0) (Vector (1 / 10 ^ 11) 0 0)))
         (Vector_scale (10 ^ 11) (dv (Line (Vector 0 0 0) (Vector (1 / 10 ^ 11) 0 0))))"
    by (simp_all add: Vector_scale_def Vector_add_def)
  from e i f' show ?thesis
    by blast
qed

text \<open>
  C10, amended. For every pair of coincident lines (the direction of \<open>b\<close> is a nonzero
  multiple of the direction of \<open>a\<close>, and the support of \<open>b\<close> lies on \<open>a\<close>) such that a
  component of the direction of \<open>a\<close> is not null, the reduced system is solvable and has
  one free parameter, and \<open>intersection(a, b)\<close>, which queries the Solution with no
  argument, fails with the count-mismatch error.
\<close>

theorem coincident_lines_count_mismatch:
  assumes "k \<noteq> 0"
    and "dv b = Vector_scale k (dv a)"
    and "sv b = Vector_add (sv a) (Vector_scale t (dv a))"
    and "\<not> nullrow (Vector_list (dv a))"
  shows "Solution_bool (solve (line_line_matrix a b))
    \<and> varargs (solve (line_line_matrix a b)) = 1
    \<and> intersection (LineV a) (LineV b) = Inl (CountMismatch 1 0)"
proof -
  from assms(4) have "\<not> null (vec_x (dv a)) \<or> \<not> null (vec_y (dv a)) \<or> \<not> null (vec_z (dv a))"
    by (simp add: nullrow_def Vector_list_def)
  from lu_rank1 [OF this, of k t] obtain p where p: "\<not> null p"
    and u: "lu_upper 0 (line_line_matrix a b) = [[p, - (k * p), t * p], [0, 0, 0], [0, 0, 0]]"
    unfolding coincident_matrix [OF assms(2) assms(3)] by blast
  have sb: "Solution_bool (solve (line_line_matrix a b))"
    and va: "varargs (solve (line_line_matrix a b)) = 1"
    unfolding solve_def u using rank1_solution [OF p] by simp_all
  have "call (solve (line_line_matrix a b)) [] = Inl (CountMismatch 1 0)"
    using sb va by (simp add: call_def Solution_bool_def)
  with sb have "intersection (LineV a) (LineV b) = Inl (CountMismatch 1 0)"
    by (rule intersection_line_line_error)
  with sb va show ?thesis by simp
qed

theorem coincident_lines_count_mismatch_witness:
  "(1 :: real) \<noteq> 0
   \<and> dv (Line (Vector 0 0 0) (Vector 1 0 0)) = Vector_scale 1 (dv (Line (Vector 0 0 0) (Vector 1 0 0)))
   \<and> sv (Line (Vector 0 0 0) (Vector 1 0 0)) =
       Vector_add (sv (Line (Vector 0 0 0) (Vector 1 0 0)))
         (Vector_scale 0 (dv (Line (Vector 0 0 0) (Vector 1 0 0))))
   \<and> \<not> nullrow (Vector_list (dv (Line (Vector 0 0 0) (Vector 1 0 0))))
   \<and> intersection (LineV (Line (Vector 0 0 0) (Vector 1 0 0)))
        (LineV (Line (Vector 0 0 0) (Vector 1 0 0))) = Inl (CountMismatch 1 0)"
proof -
  have h: "(1 :: real) \<noteq> 0"
    "dv (Line (Vector 0 0 0) (Vector 1 0 0)) = Vector_scale 1 (dv (Line (Vector 0 0 0) (Vector 1 0 0)))"
    "sv (Line (Vector 0 0 0) (Vector 1 0 0)) =
       Vector_add (sv (Line (Vector 0 0 0) (Vector 1 0 0)))
         (Vector_scale 0 (dv (Line (Vector 0 0 0) (Vector 1 0 0))))"
    "\<not> nullrow (Vector_list (dv (Line (Vector 0 0 0) (Vector 1 0 0))))"
    by (simp_all add: Vector_scale_def Vector_add_def nullrow_def Vector_list_def null_def)
  from coincident_lines_count_mismatch [OF h] h show ?thesis
    by blast
qed

subsection \<open>The intersection of two planes\<close>

lemma null_zero: "null 0"
  by (simp add: null_def)

lemmas query_defs =
  call_def Solution_init_def Solution_bool_def ncols_def unique_equations_def nullrow_def
  contradiction_def count_def index_def first_nonzero_def Let_def null_zero














section \<open>The resolution order of a query\<close>

lemma count_from_filter: "count_from c f l = c + length (filter f l)"
  by (induction l arbitrary: c) simp_all

lemma first_nonzero_leading: "first_nonzero r = spec_leading r"
proof -
  have "first_nonzero_from i r = i + length (takeWhile null r)" for i
    by (induction r arbitrary: i) simp_all
  then show ?thesis
    by (simp add: first_nonzero_def spec_leading_def)
qed

lemma filter_upt_Suc:
  "filter P [0 ..< Suc n] = (if P 0 then [0] else []) @ map Suc (filter (\<lambda>j. P (Suc j)) [0 ..< n])"
proof -
  have "[0 ..< Suc n] = 0 # map Suc [0 ..< n]"
    by (simp add: upt_conv_Cons map_Suc_upt del: upt_Suc)
  then show ?thesis
    by (simp add: filter_map comp_def del: upt_Suc)
qed

lemma index_from_filter:
  "index_from i f l =
     (case filter (\<lambda>j. f (l ! j)) [0 ..< length l] of [] \<Rightarrow> Inl NoItem | j # _ \<Rightarrow> Inr (i + j))"
proof (induction l arbitrary: i)
  case Nil
  then show ?case by simp
next
  case (Cons x l)
  show ?case
    by (simp add: filter_upt_Suc Cons.IH del: upt_Suc split: list.splits)
qed

lemma length_filter_indices:
  "length (filter f l) = length (filter (\<lambda>j. f (l ! j)) [0 ..< length l])"
proof (induction l)
  case Nil
  then show ?case by simp
next
  case (Cons x l)
  then show ?case
    by (simp add: filter_upt_Suc del: upt_Suc)
qed

lemma spec_nonnull_coeffs_butlast:
  "spec_nonnull_coeffs row =
     filter (\<lambda>j. \<not> null (butlast row ! j)) [0 ..< length (butlast row)]"
  unfolding spec_nonnull_coeffs_def
  by (rule filter_cong) (simp_all add: nth_butlast)

lemma count_coeffs: "count (\<lambda>i. \<not> null i) (butlast row) = length (spec_nonnull_coeffs row)"
  by (simp add: count_def count_from_filter spec_nonnull_coeffs_butlast
      length_filter_indices [of "\<lambda>i. \<not> null i"])

lemma index_coeffs:
  "index (\<lambda>i. \<not> null i) (butlast row) =
     (case spec_nonnull_coeffs row of [] \<Rightarrow> Inl NoItem | j # _ \<Rightarrow> Inr j)"
  by (simp add: index_def index_from_filter spec_nonnull_coeffs_butlast split: list.splits)

lemma spec_nonnull_coeffs_bound: "j \<in> set (spec_nonnull_coeffs row) \<Longrightarrow> j < length row - 1"
  by (simp add: spec_nonnull_coeffs_def)

lemma spec_direct_Nil: "spec_direct [] i = None"
  by (simp add: spec_direct_def)

lemma spec_direct_Cons:
  "spec_direct (row # rows) i =
     (case spec_direct rows i of
        Some x \<Rightarrow> Some x
      | None \<Rightarrow> if spec_nonnull_coeffs row = [i] then Some (last row / row ! i) else None)"
  by (simp add: spec_direct_def Let_def)

lemma scan_rows_spec:
  assumes "\<forall>row \<in> set s. length row = Suc (length vals)"
  shows "scan_rows s vals =
     Inr (map (\<lambda>i. case spec_direct s i of None \<Rightarrow> vals ! i | Some x \<Rightarrow> Some x)
            [0 ..< length vals])"
  using assms
proof (induction s arbitrary: vals)
  case Nil
  then show ?case
    by (simp add: spec_direct_Nil map_nth)
next
  case (Cons row rows)
  show ?case
  proof (cases "length (spec_nonnull_coeffs row) = 1")
    case False
    then have ne: "spec_nonnull_coeffs row \<noteq> [i]" for i
      by auto
    from Cons.prems have "scan_rows rows vals =
        Inr (map (\<lambda>i. case spec_direct rows i of None \<Rightarrow> vals ! i | Some x \<Rightarrow> Some x)
               [0 ..< length vals])"
      by (intro Cons.IH) simp
    with False show ?thesis
      by (simp add: count_coeffs spec_direct_Cons ne split: option.splits)
  next
    case True
    then obtain var where var: "spec_nonnull_coeffs row = [var]"
      by (cases "spec_nonnull_coeffs row") auto
    then have "var \<in> set (spec_nonnull_coeffs row)" by simp
    then have "var < length row - 1" by (rule spec_nonnull_coeffs_bound)
    with Cons.prems have lt: "var < length vals" by simp
    let ?vals = "vals[var := Some (last row / row ! var)]"
    from Cons.prems have "scan_rows rows ?vals =
        Inr (map (\<lambda>i. case spec_direct rows i of None \<Rightarrow> ?vals ! i | Some x \<Rightarrow> Some x)
               [0 ..< length ?vals])"
      by (intro Cons.IH) simp
    moreover have "(case spec_direct rows i of None \<Rightarrow> ?vals ! i | Some x \<Rightarrow> Some x) =
        (case spec_direct (row # rows) i of None \<Rightarrow> vals ! i | Some x \<Rightarrow> Some x)"
      if "i < length vals" for i
      using that by (simp add: spec_direct_Cons var nth_list_update split: option.splits)
    ultimately show ?thesis
      using lt by (simp add: count_coeffs index_coeffs var)
  qed
qed

lemma scan_rows_replicate:
  assumes "\<forall>row \<in> set s. length row = Suc n"
  shows "scan_rows s (replicate n None) = Inr (map (spec_direct s) [0 ..< n])"
proof -
  have "scan_rows s (replicate n None) =
     Inr (map (\<lambda>i. case spec_direct s i of None \<Rightarrow> replicate n None ! i | Some x \<Rightarrow> Some x)
            [0 ..< length (replicate n (None :: real option))])"
    using assms by (intro scan_rows_spec) simp
  also have "\<dots> = Inr (map (spec_direct s) [0 ..< n])"
    by (auto split: option.splits)
  finally show ?thesis .
qed

lemma fill_values_length: "length (fill_values k vals v) = length vals"
  by (induction k arbitrary: vals v) simp_all

lemma rev_nonempty: "v \<noteq> [] \<Longrightarrow> rev v = last v # rev (butlast v)"
  by (induction v rule: rev_induct) simp_all

lemma spec_unresolved_take_Suc:
  assumes "Suc k \<le> length vals" "i < k"
  shows "spec_unresolved (drop (Suc i) (take (Suc k) vals)) =
     spec_unresolved (drop (Suc i) (take k vals)) + (if vals ! k = None then 1 else 0)"
  using assms by (simp add: spec_unresolved_def take_Suc_conv_app_nth)

lemma fill_values_nth:
  assumes "k \<le> length vals" "i < length vals"
  shows "fill_values k vals v ! i =
     (if i < k
      then (case vals ! i of
              Some x \<Rightarrow> Some x
            | None \<Rightarrow>
                (let c = spec_unresolved (drop (Suc i) (take k vals))
                 in if c < length v then Some (rev v ! c) else None))
      else vals ! i)"
  using assms
proof (induction k arbitrary: vals v)
  case 0
  then show ?case by simp
next
  case (Suc k)
  then have k: "k \<le> length vals" "k < length vals" by simp_all
  show ?case
  proof (cases "v = []")
    case True
    then show ?thesis
      by (simp split: option.splits)
  next
    case False
    note v = this
    show ?thesis
    proof (cases "vals ! k")
      case (Some x)
      have "fill_values (Suc k) vals v ! i = fill_values k vals v ! i"
        using v Some by simp
      also have "\<dots> =
         (if i < k
          then (case vals ! i of
                  Some x \<Rightarrow> Some x
                | None \<Rightarrow>
                    (let c = spec_unresolved (drop (Suc i) (take k vals))
                     in if c < length v then Some (rev v ! c) else None))
          else vals ! i)"
        using k Suc.prems by (intro Suc.IH) simp_all
      finally show ?thesis
        using Some Suc.prems
        by (cases "i < k"; cases "i = k")
          (simp_all add: spec_unresolved_take_Suc split: option.splits)
    next
      case None
      let ?vals = "vals[k := Some (last v)]"
      have step: "fill_values (Suc k) vals v ! i = fill_values k ?vals (butlast v) ! i"
        using v None by simp
      have ih: "fill_values k ?vals (butlast v) ! i =
         (if i < k
          then (case ?vals ! i of
                  Some x \<Rightarrow> Some x
                | None \<Rightarrow>
                    (let c = spec_unresolved (drop (Suc i) (take k ?vals))
                     in if c < length (butlast v) then Some (rev (butlast v) ! c) else None))
          else ?vals ! i)"
        using k Suc.prems by (intro Suc.IH) simp_all
      consider (lt) "i < k" | (eq) "i = k" | (gt) "k < i"
        by linarith
      then show ?thesis
      proof cases
        case lt
        then have same: "?vals ! i = vals ! i" by simp
        show ?thesis
        proof (cases "vals ! i")
          case (Some x)
          with lt same step ih show ?thesis by simp
        next
          case None': None
          let ?c = "spec_unresolved (drop (Suc i) (take k vals))"
          have c: "spec_unresolved (drop (Suc i) (take (Suc k) vals)) = Suc ?c"
            using spec_unresolved_take_Suc [OF Suc.prems(1) lt] None by simp
          have "fill_values (Suc k) vals v ! i =
              (if ?c < length (butlast v) then Some (rev (butlast v) ! ?c) else None)"
            using lt same step ih None' by (simp add: Let_def)
          also have "\<dots> = (if Suc ?c < length v then Some (rev v ! Suc ?c) else None)"
            by (auto simp: rev_nonempty [OF v])
          finally show ?thesis
            using lt None' c by (simp add: Let_def)
        qed
      next
        case eq
        have "fill_values (Suc k) vals v ! i = Some (last v)"
          using eq step ih k by simp
        moreover have "spec_unresolved (drop (Suc k) (take (Suc k) vals)) = 0"
          by (simp add: spec_unresolved_def)
        ultimately show ?thesis
          using eq None v by (simp add: Let_def rev_nonempty [OF v])
      next
        case gt
        with step ih show ?thesis by simp
      qed
    qed
  qed
qed

lemma fill_values_spec: "fill_values (length vals) vals v = spec_fill vals v"
proof (rule nth_equalityI)
  show "length (fill_values (length vals) vals v) = length (spec_fill vals v)"
    by (simp add: fill_values_length spec_fill_def)
next
  fix i assume "i < length (fill_values (length vals) vals v)"
  then have i: "i < length vals" by (simp add: fill_values_length)
  then show "fill_values (length vals) vals v ! i = spec_fill vals v ! i"
    by (simp add: fill_values_nth spec_fill_def cong: option.case_cong)
qed

lemma sum_terms_spec:
  assumes "\<forall>j \<in> set js. j < length vals"
  shows "sum_terms row vals js acc =
     (if list_all (\<lambda>j. j < length vals \<and> vals ! j \<noteq> None) js
      then Inr (acc - (\<Sum>j\<leftarrow>js. row ! j * the (vals ! j)))
      else Inl TypeError)"
  using assms
proof (induction js arbitrary: acc)
  case Nil
  then show ?case by simp
next
  case (Cons j js)
  then show ?case
    by (cases "vals ! j") (simp_all add: algebra_simps)
qed

lemma spec_solve_row_length: "spec_solve_row row vals = Some vals' \<Longrightarrow> length vals' = length vals"
  by (auto simp: spec_solve_row_def Let_def split: if_splits)

lemma spec_leading_bound:
  assumes "\<not> contradiction row" "\<not> nullrow row" "row \<noteq> []"
  shows "spec_leading row < length row - 1"
proof -
  from assms(3) have row: "row = butlast row @ [last row]" by simp
  have "\<not> list_all null (butlast row)"
  proof
    assume a: "list_all null (butlast row)"
    with assms(1) have "null (last row)" by (simp add: contradiction_def)
    with a have "list_all null (butlast row @ [last row])" by simp
    with row assms(2) show False by (simp add: nullrow_def)
  qed
  then obtain x where x: "x \<in> set (butlast row)" "\<not> null x"
    by (auto simp: list_all_iff)
  then have "takeWhile null (butlast row @ [last row]) = takeWhile null (butlast row)"
    by (rule takeWhile_append1)
  with row have tw: "takeWhile null row = takeWhile null (butlast row)" by simp
  have "length (takeWhile null (butlast row)) \<noteq> length (butlast row)"
  proof
    assume "length (takeWhile null (butlast row)) = length (butlast row)"
    then have "takeWhile null (butlast row) = butlast row"
      by (metis takeWhile_eq_take take_all order_refl)
    then have "\<forall>y \<in> set (butlast row). null y"
      by (simp add: takeWhile_eq_all_conv)
    with x show False by blast
  qed
  moreover have "length (takeWhile null (butlast row)) \<le> length (butlast row)"
    by (rule length_takeWhile_le)
  ultimately show ?thesis
    by (simp add: spec_leading_def tw)
qed

lemma back_substitute_spec:
  assumes "k \<le> length s"
    and "\<forall>row \<in> set s. \<not> nullrow row \<longrightarrow>
           length row = Suc (length vals) \<and> spec_leading row < length vals"
  shows "back_substitute k s vals =
     (case spec_back (rev (filter (\<lambda>row. \<not> nullrow row) (take k s))) vals of
        Some r \<Rightarrow> Inr r
      | None \<Rightarrow> Inl TypeError)"
  using assms
proof (induction k arbitrary: vals)
  case 0
  then show ?case by simp
next
  case (Suc k)
  then have k: "k < length s" "k \<le> length s" by simp_all
  let ?row = "s ! k"
  have tk: "take (Suc k) s = take k s @ [?row]"
    using k by (simp add: take_Suc_conv_app_nth)
  show ?case
  proof (cases "nullrow ?row")
    case True
    then show ?thesis
      using Suc.IH [OF k(2) Suc.prems(2)] by (simp add: tk)
  next
    case False
    from k have "?row \<in> set s" by simp
    with Suc.prems False have len: "length ?row = Suc (length vals)"
      and lead: "spec_leading ?row < length vals"
      by blast+
    let ?l = "spec_leading ?row"
    let ?js = "[Suc ?l ..< length ?row - 1]"
    have js: "\<forall>j \<in> set ?js. j < length vals"
      using len by simp
    have sum: "sum_terms ?row vals [?l + 1 ..< length ?row - 1] 0 =
       (if list_all (\<lambda>j. j < length vals \<and> vals ! j \<noteq> None) ?js
        then Inr (0 - (\<Sum>j\<leftarrow>?js. ?row ! j * the (vals ! j)))
        else Inl TypeError)"
      using sum_terms_spec [OF js, of ?row 0] by simp
    show ?thesis
    proof (cases "list_all (\<lambda>j. j < length vals \<and> vals ! j \<noteq> None) ?js")
      case False
      then have "spec_solve_row ?row vals = None"
        by (simp add: spec_solve_row_def Let_def)
      with False \<open>\<not> nullrow ?row\<close> sum show ?thesis
        by (simp add: tk first_nonzero_leading Let_def)
    next
      case True
      let ?vals = "vals[?l := Some ((last ?row - (\<Sum>j\<leftarrow>?js. ?row ! j * the (vals ! j))) / ?row ! ?l)]"
      have sr: "spec_solve_row ?row vals = Some ?vals"
        using True by (simp add: spec_solve_row_def Let_def)
      have "\<forall>row \<in> set s. \<not> nullrow row \<longrightarrow>
          length row = Suc (length ?vals) \<and> spec_leading row < length ?vals"
        using Suc.prems(2) by simp
      from Suc.IH [OF k(2) this]
      have ih: "back_substitute k s ?vals =
        (case spec_back (rev (filter (\<lambda>row. \<not> nullrow row) (take k s))) ?vals of
           Some r \<Rightarrow> Inr r | None \<Rightarrow> Inl TypeError)" .
      have "back_substitute (Suc k) s vals = back_substitute k s ?vals"
        using True \<open>\<not> nullrow ?row\<close> sum lead len
        by (simp add: first_nonzero_leading Let_def)
      with ih sr \<open>\<not> nullrow ?row\<close> show ?thesis
        by (simp add: tk)
    qed
  qed
qed

lemma call_spec:
  assumes "rect s" and "Solution_bool (Solution_init s)"
    and "int (length v) = varargs (Solution_init s)"
  shows "call (Solution_init s) v =
     (case spec_query s v of Some r \<Rightarrow> Inr r | None \<Rightarrow> Inl TypeError)"
proof -
  from assms(1) obtain n where n: "ncols s = Suc n"
    by (auto simp: rect_def gr0_conv_Suc)
  then have n1: "ncols s - 1 = n" by simp
  let ?vals = "map (spec_direct s) [0 ..< n]"
  from assms(1) n have rows: "\<forall>row \<in> set s. length row = Suc n"
    by (auto simp: rect_def list_all_iff)
  from assms(2) have nc: "\<forall>row \<in> set s. \<not> contradiction row"
    by (simp add: Solution_bool_def Solution_init_def Let_def list_ex_iff)
  have scan: "scan_rows s (replicate n None) = Inr ?vals"
    using rows by (rule scan_rows_replicate)
  have fill: "fill_values (length ?vals) ?vals v = spec_fill ?vals v"
    by (rule fill_values_spec)
  have len: "length (spec_fill ?vals v) = n"
    by (simp add: spec_fill_def)
  have "\<forall>row \<in> set s. \<not> nullrow row \<longrightarrow>
      length row = Suc (length (spec_fill ?vals v)) \<and> spec_leading row < length (spec_fill ?vals v)"
  proof (intro ballI impI)
    fix row assume r: "row \<in> set s" "\<not> nullrow row"
    with rows have l: "length row = Suc n" by blast
    then have "row \<noteq> []" by auto
    with nc r have "spec_leading row < length row - 1"
      by (intro spec_leading_bound) auto
    with l show "length row = Suc (length (spec_fill ?vals v))
        \<and> spec_leading row < length (spec_fill ?vals v)"
      unfolding len by simp
  qed
  then have bs: "back_substitute (length s) s (spec_fill ?vals v) =
     (case spec_back (rev (filter (\<lambda>row. \<not> nullrow row) (take (length s) s)))
             (spec_fill ?vals v) of
        Some r \<Rightarrow> Inr r | None \<Rightarrow> Inl TypeError)"
    by (intro back_substitute_spec) simp_all
  have vc: "varcount (Solution_init s) = n" "s_of (Solution_init s) = s"
    by (simp_all add: Solution_init_def Let_def n)
  have "call (Solution_init s) v = back_substitute (length s) s (spec_fill ?vals v)"
    using assms(2) assms(3) scan fill
    by (simp add: call_def Solution_bool_def vc Let_def)
  with bs show ?thesis
    by (simp add: spec_query_def n)
qed

text \<open>
  C2, as stated, fails: the third step of the code takes every non-null row, also the
  rows of the first step, and solves their variable again from the values to its right.
  In the system \<open>x + 1e-11 y = 5\<close> the row has one non-null coefficient and fixes
  \<open>x = 5\<close> in the first step; queried with \<open>y = 1e11\<close> the code returns \<open>x = 4\<close>, where
  the order of the claim gives \<open>x = 5\<close> regardless of the free parameter.
\<close>

theorem resolution_order_counterexample:
  "Solution_bool (solve [[1, 1 / 100000000000, 5]])
   \<and> int (length [100000000000 :: real]) = varargs (solve [[1, 1 / 100000000000, 5]])
   \<and> spec_nonnull_coeffs [1, 1 / 100000000000, 5] = [0]
   \<and> spec_query_claimed (s_of (solve [[1, 1 / 100000000000, 5]])) [100000000000] =
       Some [Some 5, Some 100000000000]
   \<and> call (solve [[1, 1 / 100000000000, 5]]) [100000000000] = Inr [Some 4, Some 100000000000]"
proof -
  have u: "lu_upper 0 [[1, 1 / 100000000000, 5]] = [[1, 1 / 100000000000, 5]]"
    by (simp add: pivot_index_def Let_def)
  have nz: "spec_nonnull_coeffs [1, 1 / 100000000000, 5] = [0]"
    by (simp add: spec_nonnull_coeffs_def null_def upt_rec)
  have d: "spec_direct [[1, 1 / 100000000000, 5]] 0 = Some 5"
    "spec_direct [[1, 1 / 100000000000, 5]] 1 = None"
    by (simp_all add: spec_direct_def nz)
  have d': "spec_direct [[1, 1 / 100000000000, 5]] (Suc 0) = None"
    using d(2) by simp
  have "spec_query_claimed [[1, 1 / 100000000000, 5]] [100000000000] = Some [Some 5, Some 100000000000]"
    by (simp add: spec_query_claimed_def ncols_def nz d d' upt_rec spec_fill_def
        spec_unresolved_def)
  moreover have "Solution_bool (Solution_init [[1, 1 / 100000000000, 5]])"
    "int (length [100000000000 :: real]) = varargs (Solution_init [[1, 1 / 100000000000, 5]])"
    "call (Solution_init [[1, 1 / 100000000000, 5]]) [100000000000] = Inr [Some 4, Some 100000000000]"
    by (simp_all add: query_defs null_def)
  ultimately show ?thesis
    unfolding solve_def u using nz by (simp add: Solution_init_def Let_def)
qed

text \<open>
  C2, amended. Querying a solvable Solution with the correct number of free-parameter
  values resolves the variables in this order: first, every row with exactly one
  non-null coefficient sets that variable to the right-hand side over the coefficient;
  second, the variables still undetermined are filled with the caller's values, the
  rightmost one first; third, every non-null row, the rows of the first step included,
  is back-substituted bottom to top, each row solving its leading variable from the
  resolved variables strictly to its right. The call returns a tuple exactly when this
  order is defined (every variable a row reads is resolved), and the tuple is its result.
\<close>

theorem query_resolution_order:
  assumes "rect s" and "Solution_bool (Solution_init s)"
    and "int (length v) = varargs (Solution_init s)"
  shows "call (Solution_init s) v = Inr r \<longleftrightarrow> spec_query s v = Some r"
  using call_spec [OF assms] by (simp split: option.splits)

theorem query_resolution_order_witness:
  "rect [[1, 2, 3, 4], [0, 0, 1, 1]]
   \<and> Solution_bool (Solution_init [[1, 2, 3, 4], [0, 0, 1, 1]])
   \<and> int (length [7 :: real]) = varargs (Solution_init [[1, 2, 3, 4], [0, 0, 1, 1]])
   \<and> spec_query [[1, 2, 3, 4], [0, 0, 1, 1]] [7] = Some [Some (- 13), Some 7, Some 1]
   \<and> call (Solution_init [[1, 2, 3, 4], [0, 0, 1, 1]]) [7] = Inr [Some (- 13), Some 7, Some 1]"
proof -
  have r: "rect [[1, 2, 3, 4], [0, 0, 1, 1]]"
    by (simp add: rect_def ncols_def)
  have sb: "Solution_bool (Solution_init [[1, 2, 3, 4], [0, 0, 1, 1]])"
    and va: "int (length [7 :: real]) = varargs (Solution_init [[1, 2, 3, 4], [0, 0, 1, 1]])"
    by (simp_all add: query_defs null_def)
  have nz: "spec_nonnull_coeffs [1, 2, 3, 4] = [0, 1, 2]" "spec_nonnull_coeffs [0, 0, 1, 1] = [2]"
    by (simp_all add: spec_nonnull_coeffs_def null_def upt_rec)
  have d: "spec_direct [[1, 2, 3, 4], [0, 0, 1, 1]] 0 = None"
    "spec_direct [[1, 2, 3, 4], [0, 0, 1, 1]] (Suc 0) = None"
    "spec_direct [[1, 2, 3, 4], [0, 0, 1, 1]] (Suc (Suc 0)) = Some 1"
    by (simp_all add: spec_direct_def nz)
  have f: "spec_fill [None, None, Some 1] [7] = [None, Some 7, Some 1]"
    by (simp add: spec_fill_def spec_unresolved_def upt_rec)
  have b1: "spec_solve_row [0, 0, 1, 1] [None, Some 7, Some 1] = Some [None, Some 7, Some 1]"
    by (simp add: spec_solve_row_def spec_leading_def null_def upt_rec)
  have b2: "spec_solve_row [1, 2, 3, 4] [None, Some 7, Some 1] = Some [Some (- 13), Some 7, Some 1]"
    by (simp add: spec_solve_row_def spec_leading_def null_def upt_rec)
  have q: "spec_query [[1, 2, 3, 4], [0, 0, 1, 1]] [7] = Some [Some (- 13), Some 7, Some 1]"
    by (simp add: spec_query_def ncols_def nullrow_def null_def upt_rec d f b1 b2)
  from query_resolution_order [OF r sb va, of "[Some (- 13), Some 7, Some 1]"] q
  have "call (Solution_init [[1, 2, 3, 4], [0, 0, 1, 1]]) [7] = Inr [Some (- 13), Some 7, Some 1]"
    by simp
  with r sb va q show ?thesis by simp
qed

end
